theory Spec2Isabelle
  imports Main "HOL-Library.AList"
begin

text \<open>
  The event, staffing and points engine of the Event Hub server
  (\<^verbatim>\<open>supabase/functions/server/index.tsx\<close>): the level resolver and the handlers that
  edit, cancel and close an event, sign staff up, and award points. Each handler is a
  function from the request and the store to the answer, the new store and the list
  of effects (store writes and delivery attempts) in the order they happen.
\<close>

section \<open>Levels and the level resolver\<close>

text \<open>
  A stored level (\<^verbatim>\<open>interface Level\<close>): \<^verbatim>\<open>{ id, name, minPoints, order }\<close>.
  JavaScript numbers are modelled as unbounded integers.
\<close>

record level =
  levelId :: string
  levelName :: string
  minPoints :: int
  order :: int

text \<open>
  \<^verbatim>\<open>calculateLevel(points)\<close> of \<^verbatim>\<open>server/index.tsx\<close>. The list \<open>levels\<close> is what
  \<^verbatim>\<open>kv.getByPrefix('level:')\<close> returned. \<^verbatim>\<open>Array.prototype.sort\<close> is stable and sorts
  in place, so the fallback sort by \<^verbatim>\<open>order\<close> runs on the list already sorted by
  descending \<^verbatim>\<open>minPoints\<close>; \<open>sort_key\<close> is the stable insertion sort.
\<close>

definition calculateLevel :: "level list \<Rightarrow> int \<Rightarrow> string" where
  "calculateLevel levels pts =
     (if levels = [] then ''''
      else
        let sortedLevels = sort_key (\<lambda>l. - minPoints l) levels in
        case find (\<lambda>l. pts \<ge> minPoints l) sortedLevels of
          Some l \<Rightarrow> levelName l
        | None \<Rightarrow>
            (case sort_key order sortedLevels of
               [] \<Rightarrow> ''''
             | lowestLevel # _ \<Rightarrow> levelName lowestLevel))"

section \<open>Stored entities\<close>

text \<open>
  A stored event (\<^verbatim>\<open>interface Event\<close> of \<^verbatim>\<open>App.tsx\<close>, plus the flag
  \<^verbatim>\<open>hasBeenClosedBefore\<close> that only the server writes). Fields the interface marks
  optional are options, \<open>None\<close> being \<^verbatim>\<open>undefined\<close>; the seed events of
  \<^verbatim>\<open>/init\<close> carry no \<^verbatim>\<open>status\<close>. The id sets are arrays in the code and lists
  here. \<^verbatim>\<open>signUpTimestamps\<close> is an object used as a dictionary, kept as an association
  list in insertion order.
\<close>

record event =
  eventId :: string
  name :: string
  date :: string
  endDate :: "string option"
  time :: string
  duration :: string
  location :: string
  description :: "string option"
  eventNotes :: "string option"
  points :: int
  requiredLevel :: string
  signedUpStaff :: "string list"
  signUpTimestamps :: "(string \<times> string) list option"
  confirmedStaff :: "string list option"
  pointsAwarded :: "string list option"
  hasBeenClosedBefore :: "bool option"
  createdAt :: string
  status :: "string option"

text \<open>A stored user record (\<^verbatim>\<open>user:<id>\<close>), for staff and administrators alike.\<close>

record staff =
  userId :: string
  email :: string
  userName :: string
  phone :: "string option"
  telegramChatId :: "string option"
  telegramUsername :: "string option"
  userPoints :: int
  userLevel :: string
  role :: "string option"
  userStatus :: string

record adjustment =
  adjustmentId :: string
  adjStaffId :: string
  adjPoints :: int
  reason :: string
  timestamp :: string
  adminId :: string
  adjEventId :: "string option"

record telegramSettings =
  tgConnected :: bool
  botToken :: "string option"

record whatsAppSettings =
  waConnected :: bool

text \<open>
  Modelled from the spec: the key-value store \<^verbatim>\<open>kv_store.tsx\<close> (\<^verbatim>\<open>get\<close>,
  \<^verbatim>\<open>set\<close>, \<^verbatim>\<open>getByPrefix\<close>) is imported by the server but is not among the
  sources. The spec describes it as an opaque get/set/list-by-prefix store with
  namespaced keys; it is modelled as one association list per namespace
  (\<^verbatim>\<open>event:\<close>, \<^verbatim>\<open>user:\<close>, \<^verbatim>\<open>adjustment:\<close>), the list of stored levels, and
  the two settings singletons. \<^verbatim>\<open>kv.get\<close> is \<open>map_of\<close>, \<^verbatim>\<open>kv.set\<close> is
  \<open>AList.update\<close>, \<^verbatim>\<open>kv.getByPrefix\<close> lists the values in stored order. Store
  calls are taken not to throw.
\<close>

record store =
  events :: "(string \<times> event) list"
  users :: "(string \<times> staff) list"
  levels :: "level list"
  adjustments :: "(string \<times> adjustment) list"
  telegram :: "telegramSettings option"
  whatsapp :: "whatsAppSettings option"

definition kvGetEvent :: "store \<Rightarrow> string \<Rightarrow> event option" where
  "kvGetEvent st k = map_of (events st) k"

definition kvGetUser :: "store \<Rightarrow> string \<Rightarrow> staff option" where
  "kvGetUser st k = map_of (users st) k"

definition kvSetEvent :: "string \<Rightarrow> event \<Rightarrow> store \<Rightarrow> store" where
  "kvSetEvent k e st = st\<lparr>events := AList.update k e (events st)\<rparr>"

definition kvSetUser :: "string \<Rightarrow> staff \<Rightarrow> store \<Rightarrow> store" where
  "kvSetUser k u st = st\<lparr>users := AList.update k u (users st)\<rparr>"

definition kvSetAdjustment :: "string \<Rightarrow> adjustment \<Rightarrow> store \<Rightarrow> store" where
  "kvSetAdjustment k a st = st\<lparr>adjustments := AList.update k a (adjustments st)\<rparr>"

section \<open>Environment, errors and effects\<close>

text \<open>
  What a request reads from the runtime: the clock (\<^verbatim>\<open>Date.now()\<close>,
  \<^verbatim>\<open>new Date().toISOString()\<close>), date parsing (\<^verbatim>\<open>new Date(s)\<close>, \<open>None\<close> for an
  invalid date), the rendering of dates and numbers in messages, the e-mail API key,
  and whether the remote service accepts a given send.
\<close>

datatype notice =
    NewEvent | Selected | Deselected | Updated "string list" | Cancelled | PointsEarned

datatype effect =
    KvSetEvent string event
  | KvSetUser string staff
  | KvSetAdjustment string adjustment
  | KvDelEvent string
  | KvDelUser string
  | SendEmail string string notice
  | SendTelegram string string notice
  | SendWhatsApp string string notice
  | LogCount string nat

record env =
  nowMs :: int
  nowIso :: string
  parseDate :: "string \<Rightarrow> int option"
  fmtDate :: "string \<Rightarrow> string"
  fmtNum :: "int \<Rightarrow> string"
  resendApiKey :: "string option"
  delivered :: "effect \<Rightarrow> bool"

text \<open>
  The error classes of the handlers: 401, 403, 400 for a missing field, 404, 400 for a
  request in the wrong state, and 500 from the outer \<^verbatim>\<open>catch\<close>.
\<close>

datatype error =
    Unauthorized string
  | AuthorizationError string
  | ValidationError string
  | NotFoundError string
  | PreconditionError string
  | FatalError string

fun statusCode :: "error \<Rightarrow> nat" where
  "statusCode (Unauthorized _) = 401"
| "statusCode (AuthorizationError _) = 403"
| "statusCode (ValidationError _) = 400"
| "statusCode (NotFoundError _) = 404"
| "statusCode (PreconditionError _) = 400"
| "statusCode (FatalError _) = 500"

text \<open>JavaScript truthiness of an optional string, and \<^verbatim>\<open>x || []\<close>.\<close>

definition truthy :: "string option \<Rightarrow> bool" where
  "truthy s = (case s of None \<Rightarrow> False | Some v \<Rightarrow> v \<noteq> [])"

definition orEmpty :: "'a list option \<Rightarrow> 'a list" where
  "orEmpty xs = (case xs of None \<Rightarrow> [] | Some v \<Rightarrow> v)"

text \<open>
  The admin check that opens every admin-only handler: \<^verbatim>\<open>verifyAuth\<close> yields the
  caller's id (\<open>None\<close> when it fails), then the caller's stored role must be
  \<^verbatim>\<open>'admin'\<close>.
\<close>

definition requireAdmin :: "store \<Rightarrow> string option \<Rightarrow> error + string" where
  "requireAdmin st caller =
     (case caller of
        None \<Rightarrow> Inl (Unauthorized ''Unauthorized'')
      | Some uid \<Rightarrow>
          (case kvGetUser st uid of
             None \<Rightarrow> Inl (AuthorizationError ''Admin access required'')
           | Some userData \<Rightarrow>
               if role userData \<noteq> Some ''admin''
               then Inl (AuthorizationError ''Admin access required'')
               else Inr uid))"

section \<open>Notification channels\<close>

text \<open>
  Texts are kept as their UTF-8 bytes. \<^verbatim>\<open>String.prototype.trim\<close> strips the
  white space and the line terminators of ECMAScript: U+0009 to U+000D, U+0020,
  U+00A0, U+1680, U+2000 to U+200A, U+2028, U+2029, U+202F, U+205F, U+3000 and U+FEFF,
  listed here in UTF-8.
\<close>

definition whiteSpace :: "string list" where
  "whiteSpace =
     [[CHR 0x09], [CHR 0x0A], [CHR 0x0B], [CHR 0x0C], [CHR 0x0D], [CHR 0x20],
      [CHR 0xC2, CHR 0xA0],
      [CHR 0xE1, CHR 0x9A, CHR 0x80],
      [CHR 0xE2, CHR 0x80, CHR 0x80], [CHR 0xE2, CHR 0x80, CHR 0x81],
      [CHR 0xE2, CHR 0x80, CHR 0x82], [CHR 0xE2, CHR 0x80, CHR 0x83],
      [CHR 0xE2, CHR 0x80, CHR 0x84], [CHR 0xE2, CHR 0x80, CHR 0x85],
      [CHR 0xE2, CHR 0x80, CHR 0x86], [CHR 0xE2, CHR 0x80, CHR 0x87],
      [CHR 0xE2, CHR 0x80, CHR 0x88], [CHR 0xE2, CHR 0x80, CHR 0x89],
      [CHR 0xE2, CHR 0x80, CHR 0x8A],
      [CHR 0xE2, CHR 0x80, CHR 0xA8], [CHR 0xE2, CHR 0x80, CHR 0xA9],
      [CHR 0xE2, CHR 0x80, CHR 0xAF],
      [CHR 0xE2, CHR 0x81, CHR 0x9F],
      [CHR 0xE3, CHR 0x80, CHR 0x80],
      [CHR 0xEF, CHR 0xBB, CHR 0xBF]]"

text \<open>The number of bytes of the white-space character a text starts with, 0 if none.\<close>

definition spaceAtHead :: "string \<Rightarrow> nat" where
  "spaceAtHead s =
     (case find (\<lambda>w. take (length w) s = w) whiteSpace of
        None \<Rightarrow> 0
      | Some w \<Rightarrow> length w)"

text \<open>\<^verbatim>\<open>s.trim() === ''\<close>: the text consists of white space only.\<close>

function isBlank :: "string \<Rightarrow> bool" where
  "isBlank s =
     (if s = [] then True
      else if spaceAtHead s = 0 then False
      else isBlank (drop (spaceAtHead s) s))"
  by pat_completeness auto
termination
  by (relation "measure length") auto

declare isBlank.simps [simp del]

text \<open>\<^verbatim>\<open>staff.telegramChatId || staff.telegramUsername\<close>.\<close>

definition chatIdOf :: "staff \<Rightarrow> string option" where
  "chatIdOf u = (if truthy (telegramChatId u) then telegramChatId u else telegramUsername u)"

text \<open>
  One pass of a Telegram loop body for a resolved staff record: skipped when the chat
  id is missing or blank, otherwise one call of \<^verbatim>\<open>sendTelegramMessage\<close>.
\<close>

definition telegramTo :: "notice \<Rightarrow> string \<Rightarrow> staff \<Rightarrow> effect list" where
  "telegramTo k rid u =
     (case chatIdOf u of
        None \<Rightarrow> []
      | Some chatId \<Rightarrow> if chatId = [] \<or> isBlank chatId then [] else [SendTelegram rid chatId k])"

text \<open>
  A Telegram loop over staff ids: each id is resolved with \<^verbatim>\<open>kv.get('user:' + id)\<close>
  and skipped when no record is found.
\<close>

definition telegramNotify :: "store \<Rightarrow> notice \<Rightarrow> string list \<Rightarrow> effect list" where
  "telegramNotify st k ids =
     concat (map (\<lambda>staffId. case kvGetUser st staffId of
                                None \<Rightarrow> []
                              | Some u \<Rightarrow> telegramTo k staffId u) ids)"

definition telegramConnected :: "store \<Rightarrow> bool" where
  "telegramConnected st = (case telegram st of None \<Rightarrow> False | Some s \<Rightarrow> tgConnected s)"

definition whatsAppConnected :: "store \<Rightarrow> bool" where
  "whatsAppConnected st = (case whatsapp st of None \<Rightarrow> False | Some s \<Rightarrow> waConnected s)"

text \<open>
  The WhatsApp loop, which only the handler that creates an event runs, over the
  eligible staff: a staff member without a phone number is skipped.
\<close>

definition newEventWhatsApp :: "store \<Rightarrow> staff list \<Rightarrow> effect list" where
  "newEventWhatsApp st eligibleStaff =
     (if whatsAppConnected st
      then concat (map (\<lambda>u. case phone u of
                               None \<Rightarrow> []
                             | Some p \<Rightarrow> if p = [] \<or> isBlank p then []
                                         else [SendWhatsApp (userId u) p NewEvent])
                    eligibleStaff)
      else [])"

definition FROM_EMAIL :: string where
  "FROM_EMAIL = ''onboarding@resend.dev''"

text \<open>
  \<^verbatim>\<open>sendEmail(to, subject, html)\<close>: nothing is sent without an API key; with the
  test sender address the mail goes to the test inbox instead of \<open>to\<close>.
\<close>

definition sendEmail :: "env \<Rightarrow> string \<Rightarrow> string \<Rightarrow> notice \<Rightarrow> effect list" where
  "sendEmail env rid to k =
     (if \<not> truthy (resendApiKey env) then []
      else
        let isTestMode = (FROM_EMAIL = ''onboarding@resend.dev'');
            actualRecipient = (if isTestMode then ''delivered@resend.dev'' else to)
        in [SendEmail rid actualRecipient k])"

section \<open>Editing an event\<close>

text \<open>
  The JSON body of \<^verbatim>\<open>PUT /events/:id\<close>: any field of an event may be present or
  absent (a JSON \<^verbatim>\<open>null\<close> is not modelled).
\<close>

record eventData =
  d_id :: "string option"
  d_name :: "string option"
  d_date :: "string option"
  d_endDate :: "string option"
  d_time :: "string option"
  d_duration :: "string option"
  d_location :: "string option"
  d_description :: "string option"
  d_notes :: "string option"
  d_points :: "int option"
  d_requiredLevel :: "string option"
  d_signedUpStaff :: "string list option"
  d_signUpTimestamps :: "(string \<times> string) list option"
  d_confirmedStaff :: "string list option"
  d_pointsAwarded :: "string list option"
  d_hasBeenClosedBefore :: "bool option"
  d_createdAt :: "string option"
  d_status :: "string option"

text \<open>Object spread: a field present in the body overrides the stored one.\<close>

definition pick :: "'a option \<Rightarrow> 'a \<Rightarrow> 'a" where
  "pick d old = (case d of None \<Rightarrow> old | Some v \<Rightarrow> v)"

definition pickOpt :: "'a option \<Rightarrow> 'a option \<Rightarrow> 'a option" where
  "pickOpt d old = (case d of None \<Rightarrow> old | Some v \<Rightarrow> Some v)"

text \<open>
  \<^verbatim>\<open>{ ...existingEvent, ...eventData, id: eventId, signedUpStaff:
  existingEvent.signedUpStaff, confirmedStaff: existingEvent.confirmedStaff,
  hasBeenClosedBefore: existingEvent.hasBeenClosedBefore, createdAt:
  existingEvent.createdAt }\<close>
\<close>

definition updatedEventOf :: "string \<Rightarrow> event \<Rightarrow> eventData \<Rightarrow> event" where
  "updatedEventOf eid existingEvent d =
     \<lparr> eventId = eid,
       name = pick (d_name d) (name existingEvent),
       date = pick (d_date d) (date existingEvent),
       endDate = pickOpt (d_endDate d) (endDate existingEvent),
       time = pick (d_time d) (time existingEvent),
       duration = pick (d_duration d) (duration existingEvent),
       location = pick (d_location d) (location existingEvent),
       description = pickOpt (d_description d) (description existingEvent),
       eventNotes = pickOpt (d_notes d) (eventNotes existingEvent),
       points = pick (d_points d) (points existingEvent),
       requiredLevel = pick (d_requiredLevel d) (requiredLevel existingEvent),
       signedUpStaff = signedUpStaff existingEvent,
       signUpTimestamps = pickOpt (d_signUpTimestamps d) (signUpTimestamps existingEvent),
       confirmedStaff = confirmedStaff existingEvent,
       pointsAwarded = pickOpt (d_pointsAwarded d) (pointsAwarded existingEvent),
       hasBeenClosedBefore = hasBeenClosedBefore existingEvent,
       createdAt = createdAt existingEvent,
       status = pickOpt (d_status d) (status existingEvent) \<rparr>"

definition arrow :: string where
  "arrow = [CHR 0xE2, CHR 0x86, CHR 0x92]"

definition quoted :: "string \<Rightarrow> string" where
  "quoted s = [CHR 0x22] @ s @ [CHR 0x22]"

definition lineIf :: "bool \<Rightarrow> string \<Rightarrow> string list" where
  "lineIf b l = (if b then [l] else [])"

text \<open>The field diff: the nine \<^verbatim>\<open>if (existingEvent.f !== updatedEvent.f)\<close> in order.\<close>

definition fieldChanges :: "env \<Rightarrow> event \<Rightarrow> event \<Rightarrow> string list" where
  "fieldChanges env existingEvent updatedEvent =
     lineIf (name existingEvent \<noteq> name updatedEvent)
       (''Name: '' @ quoted (name existingEvent) @ '' '' @ arrow @ '' '' @ quoted (name updatedEvent)) @
     lineIf (date existingEvent \<noteq> date updatedEvent)
       (''Date: '' @ fmtDate env (date existingEvent) @ '' '' @ arrow @ '' '' @ fmtDate env (date updatedEvent)) @
     lineIf (time existingEvent \<noteq> time updatedEvent)
       (''Time: '' @ time existingEvent @ '' '' @ arrow @ '' '' @ time updatedEvent) @
     lineIf (location existingEvent \<noteq> location updatedEvent)
       (''Location: '' @ quoted (location existingEvent) @ '' '' @ arrow @ '' '' @ quoted (location updatedEvent)) @
     lineIf (duration existingEvent \<noteq> duration updatedEvent)
       (''Duration: '' @ duration existingEvent @ '' '' @ arrow @ '' '' @ duration updatedEvent) @
     lineIf (points existingEvent \<noteq> points updatedEvent)
       (''Points: '' @ fmtNum env (points existingEvent) @ '' '' @ arrow @ '' '' @ fmtNum env (points updatedEvent)) @
     lineIf (requiredLevel existingEvent \<noteq> requiredLevel updatedEvent)
       (''Required Level: '' @ requiredLevel existingEvent @ '' '' @ arrow @ '' '' @ requiredLevel updatedEvent) @
     lineIf (description existingEvent \<noteq> description updatedEvent) ''Description updated'' @
     lineIf (eventNotes existingEvent \<noteq> eventNotes updatedEvent) ''Notes updated''"

text \<open>\<^verbatim>\<open>const eventStatus = updatedEvent.status || 'open'\<close>\<close>

definition eventStatusOf :: "event \<Rightarrow> string" where
  "eventStatusOf updatedEvent =
     (case status updatedEvent of None \<Rightarrow> ''open'' | Some s \<Rightarrow> if s = [] then ''open'' else s)"

definition staffToNotify :: "string \<Rightarrow> event \<Rightarrow> string list" where
  "staffToNotify eventStatus updatedEvent =
     (if eventStatus = ''open'' then signedUpStaff updatedEvent
      else if eventStatus = ''closed'' then orEmpty (confirmedStaff updatedEvent)
      else [])"

text \<open>
  The notification block of the handler, run after the event was saved: the
  selection-change messages, then the "event updated" messages.
\<close>

definition updateNotifications :: "env \<Rightarrow> store \<Rightarrow> event \<Rightarrow> event \<Rightarrow> effect list" where
  "updateNotifications env st existingEvent updatedEvent =
     (let eventStatus = eventStatusOf updatedEvent in
      if eventStatus = ''draft'' then []
      else
        let oldConfirmedStaff = orEmpty (confirmedStaff existingEvent);
            newConfirmedStaff = orEmpty (confirmedStaff updatedEvent);
            newlySelected = filter (\<lambda>i. i \<notin> set oldConfirmedStaff) newConfirmedStaff;
            newlyDeselected = filter (\<lambda>i. i \<notin> set newConfirmedStaff) oldConfirmedStaff;
            hasSelectionChanges = (newlySelected \<noteq> [] \<or> newlyDeselected \<noteq> []);
            selectionMsgs =
              (if hasSelectionChanges \<and> telegramConnected st
               then telegramNotify st Selected newlySelected @
                    telegramNotify st Deselected newlyDeselected
               else []);
            changes = fieldChanges env existingEvent updatedEvent;
            updateMsgs =
              (if changes \<noteq> []
               then
                 let recipients = staffToNotify eventStatus updatedEvent in
                 if recipients \<noteq> [] \<and> telegramConnected st
                 then telegramNotify st (Updated changes) recipients
                 else []
               else [])
        in selectionMsgs @ updateMsgs)"

definition updateEvent ::
  "env \<Rightarrow> string option \<Rightarrow> string \<Rightarrow> eventData \<Rightarrow> store \<Rightarrow> (error + event) \<times> store \<times> effect list"
where
  "updateEvent env caller eid d st =
     (case requireAdmin st caller of
        Inl e \<Rightarrow> (Inl e, st, [])
      | Inr _ \<Rightarrow>
          (case kvGetEvent st eid of
             None \<Rightarrow> (Inl (NotFoundError ''Event not found''), st, [])
           | Some existingEvent \<Rightarrow>
               let updatedEvent = updatedEventOf eid existingEvent d;
                   st' = kvSetEvent eid updatedEvent st
               in (Inr updatedEvent, st',
                   KvSetEvent eid updatedEvent #
                   updateNotifications env st' existingEvent updatedEvent)))"

section \<open>Cancelling an event\<close>

text \<open>
  \<^verbatim>\<open>POST /events/:id/cancel\<close>. The event is saved as cancelled; when somebody is
  signed up, the users whose id is in \<^verbatim>\<open>signedUpStaff\<close> get an e-mail each (if the
  API key is set) and then a Telegram message each (if Telegram is connected and the
  user has a chat id); only then \<^verbatim>\<open>signedUpStaff\<close> is emptied and the event saved
  again. The outcome of a send only feeds the counters that are logged.
\<close>

definition cancelEvent ::
  "env \<Rightarrow> string option \<Rightarrow> string \<Rightarrow> store \<Rightarrow> (error + event) \<times> store \<times> effect list"
where
  "cancelEvent env caller eid st =
     (case requireAdmin st caller of
        Inl e \<Rightarrow> (Inl e, st, [])
      | Inr _ \<Rightarrow>
          (case kvGetEvent st eid of
             None \<Rightarrow> (Inl (NotFoundError ''Event not found''), st, [])
           | Some existingEvent \<Rightarrow>
               let cancelledEvent = existingEvent\<lparr>status := Some ''cancelled''\<rparr>;
                   st1 = kvSetEvent eid cancelledEvent st
               in
               if signedUpStaff cancelledEvent = []
               then (Inr cancelledEvent, st1, [KvSetEvent eid cancelledEvent])
               else
                 let allUsers = map snd (users st1);
                     participatingStaff =
                       filter (\<lambda>u. userId u \<in> set (signedUpStaff cancelledEvent)) allUsers;
                     emails =
                       (if truthy (resendApiKey env)
                        then map (\<lambda>u. SendEmail (userId u) (email u) Cancelled) participatingStaff
                        else []);
                     emailsSent = length (filter (delivered env) emails);
                     telegrams =
                       (if telegramConnected st1
                        then concat (map (\<lambda>u. telegramTo Cancelled (userId u) u) participatingStaff)
                        else []);
                     telegramLog =
                       (if telegramConnected st1
                        then [LogCount ''telegram'' (length (filter (delivered env) telegrams))]
                        else []);
                     purgedEvent = cancelledEvent\<lparr>signedUpStaff := []\<rparr>;
                     st2 = kvSetEvent eid purgedEvent st1
                 in (Inr purgedEvent, st2,
                     [KvSetEvent eid cancelledEvent] @ emails @ [LogCount ''emails'' emailsSent] @
                     telegrams @ telegramLog @ [KvSetEvent eid purgedEvent])))"

section \<open>Creating, reinstating and deleting\<close>

text \<open>
  The JSON body of \<^verbatim>\<open>POST /events\<close>, as the event form sends it: the required
  fields of the interface are present, the optional ones may be, and nothing keeps the
  body from carrying an \<^verbatim>\<open>id\<close> or the id lists.
\<close>

record newEventData =
  n_id :: "string option"
  n_name :: string
  n_date :: string
  n_endDate :: "string option"
  n_time :: string
  n_duration :: string
  n_location :: string
  n_description :: "string option"
  n_notes :: "string option"
  n_points :: int
  n_requiredLevel :: string
  n_signUpTimestamps :: "(string \<times> string) list option"
  n_confirmedStaff :: "string list option"
  n_pointsAwarded :: "string list option"
  n_hasBeenClosedBefore :: "bool option"
  n_status :: "string option"

text \<open>
  \<^verbatim>\<open>{ id: eventId, ...eventData, status: eventData.status || 'draft',
  signedUpStaff: [], createdAt: new Date().toISOString() }\<close>, where \<open>newId\<close> is the
  generated \<^verbatim>\<open>eventId\<close>; an \<^verbatim>\<open>id\<close> in the body overrides the generated one in
  the record, not in the key.
\<close>

definition createdEventOf :: "env \<Rightarrow> string \<Rightarrow> newEventData \<Rightarrow> event" where
  "createdEventOf env newId b =
     \<lparr> eventId = pick (n_id b) newId,
       name = n_name b,
       date = n_date b,
       endDate = n_endDate b,
       time = n_time b,
       duration = n_duration b,
       location = n_location b,
       description = n_description b,
       eventNotes = n_notes b,
       points = n_points b,
       requiredLevel = n_requiredLevel b,
       signedUpStaff = [],
       signUpTimestamps = n_signUpTimestamps b,
       confirmedStaff = n_confirmedStaff b,
       pointsAwarded = n_pointsAwarded b,
       hasBeenClosedBefore = n_hasBeenClosedBefore b,
       createdAt = nowIso env,
       status = Some (if truthy (n_status b) then orEmpty (n_status b) else ''draft'') \<rparr>"

text \<open>
  The staff who are told about a new event: active staff whose level is found among
  the stored levels with an \<^verbatim>\<open>order\<close> not below that of the event's required level;
  nobody when the required level is not stored.
\<close>

definition eligibleStaff :: "store \<Rightarrow> event \<Rightarrow> staff list" where
  "eligibleStaff st ev =
     (let staffMembers =
            filter (\<lambda>u. role u = Some ''staff'' \<and> userStatus u = ''active'') (map snd (users st));
          sortedLevels = sort_key order (levels st)
      in
      case find (\<lambda>l. levelName l = requiredLevel ev) sortedLevels of
        None \<Rightarrow> []
      | Some eventLevel \<Rightarrow>
          filter (\<lambda>u. userLevel u \<noteq> [] \<and>
                       (case find (\<lambda>l. levelName l = userLevel u) sortedLevels of
                          None \<Rightarrow> False
                        | Some staffLevel \<Rightarrow> order staffLevel \<ge> order eventLevel))
            staffMembers)"

text \<open>
  \<^verbatim>\<open>POST /events\<close>. Only an event created as open is announced, first over
  WhatsApp, then over Telegram; the number of Telegram messages that went out is
  logged.
\<close>

definition createEvent ::
  "env \<Rightarrow> string option \<Rightarrow> string \<Rightarrow> newEventData \<Rightarrow> store \<Rightarrow>
   (error + event) \<times> store \<times> effect list"
where
  "createEvent env caller newId b st =
     (case requireAdmin st caller of
        Inl e \<Rightarrow> (Inl e, st, [])
      | Inr _ \<Rightarrow>
          let ev = createdEventOf env newId b;
              st' = kvSetEvent newId ev st
          in (Inr ev, st',
              KvSetEvent newId ev #
              (if status ev = Some ''open''
               then
                 let eligible = eligibleStaff st' ev in
                 newEventWhatsApp st' eligible @
                 (if telegramConnected st'
                  then
                    let telegrams = concat (map (\<lambda>u. telegramTo NewEvent (userId u) u) eligible)
                    in telegrams @ [LogCount ''telegram'' (length (filter (delivered env) telegrams))]
                  else [])
               else [])))"

text \<open>\<^verbatim>\<open>POST /events/:id/reinstate\<close>: the status becomes \<^verbatim>\<open>'upcoming'\<close>.\<close>

definition reinstateEvent ::
  "string option \<Rightarrow> string \<Rightarrow> store \<Rightarrow> (error + event) \<times> store \<times> effect list"
where
  "reinstateEvent caller eid st =
     (case requireAdmin st caller of
        Inl e \<Rightarrow> (Inl e, st, [])
      | Inr _ \<Rightarrow>
          (case kvGetEvent st eid of
             None \<Rightarrow> (Inl (NotFoundError ''Event not found''), st, [])
           | Some existingEvent \<Rightarrow>
               let reinstatedEvent = existingEvent\<lparr>status := Some ''upcoming''\<rparr>
               in (Inr reinstatedEvent, kvSetEvent eid reinstatedEvent st,
                   [KvSetEvent eid reinstatedEvent])))"

text \<open>\<^verbatim>\<open>DELETE /events/:id\<close>: the key is deleted, whether or not it was stored.\<close>

definition deleteEvent ::
  "string option \<Rightarrow> string \<Rightarrow> store \<Rightarrow> (error + unit) \<times> store \<times> effect list"
where
  "deleteEvent caller eid st =
     (case requireAdmin st caller of
        Inl e \<Rightarrow> (Inl e, st, [])
      | Inr _ \<Rightarrow> (Inr (), st\<lparr>events := AList.delete eid (events st)\<rparr>, [KvDelEvent eid]))"

text \<open>
  One pass of the loop of \<^verbatim>\<open>DELETE /staff/:id\<close> over the events listed at its
  start: an event the staff member is signed up for is saved again without them,
  under the key made from the \<^verbatim>\<open>id\<close> of the record.
\<close>

definition unsignStep :: "string \<Rightarrow> store \<times> effect list \<Rightarrow> event \<Rightarrow> store \<times> effect list" where
  "unsignStep staffId acc ev =
     (if staffId \<in> set (signedUpStaff ev)
      then
        let updatedEvent = ev\<lparr>signedUpStaff := filter (\<lambda>i. i \<noteq> staffId) (signedUpStaff ev)\<rparr>
        in (kvSetEvent (eventId ev) updatedEvent (fst acc),
            snd acc @ [KvSetEvent (eventId ev) updatedEvent])
      else acc)"

text \<open>
  \<^verbatim>\<open>DELETE /staff/:id\<close>: administrators cannot be deleted; the staff member is taken
  out of the sign-ups of every event and the user record is deleted.
\<close>

definition deleteStaff ::
  "string option \<Rightarrow> string \<Rightarrow> store \<Rightarrow> (error + unit) \<times> store \<times> effect list"
where
  "deleteStaff caller staffId st =
     (case requireAdmin st caller of
        Inl e \<Rightarrow> (Inl e, st, [])
      | Inr _ \<Rightarrow>
          (case kvGetUser st staffId of
             None \<Rightarrow> (Inl (NotFoundError ''Staff member not found''), st, [])
           | Some u \<Rightarrow>
               if role u = Some ''admin''
               then (Inl (AuthorizationError ''Cannot delete admin users''), st, [])
               else
                 (case foldl (unsignStep staffId) (st, []) (map snd (events st)) of
                    (st1, tr) \<Rightarrow>
                      (Inr (), st1\<lparr>users := AList.delete staffId (users st1)\<rparr>,
                       tr @ [KvDelUser staffId]))))"

section \<open>Signing up and cancelling a sign-up\<close>

text \<open>\<^verbatim>\<open>new Date(`${event.date}T${event.time}`) < new Date()\<close>; false on an invalid date.\<close>

definition isPast :: "env \<Rightarrow> event \<Rightarrow> bool" where
  "isPast env ev =
     (case parseDate env (date ev @ ''T'' @ time ev) of
        None \<Rightarrow> False
      | Some eventDate \<Rightarrow> eventDate < nowMs env)"

text \<open>\<^verbatim>\<open>POST /signups\<close>, for any authenticated caller.\<close>

definition signup ::
  "env \<Rightarrow> string option \<Rightarrow> string option \<Rightarrow> store \<Rightarrow> (error + event) \<times> store \<times> effect list"
where
  "signup env caller reqEventId st =
     (case caller of
        None \<Rightarrow> (Inl (Unauthorized ''Unauthorized''), st, [])
      | Some uid \<Rightarrow>
          (case reqEventId of
             None \<Rightarrow> (Inl (ValidationError ''Event ID is required''), st, [])
           | Some eid \<Rightarrow>
               if eid = [] then (Inl (ValidationError ''Event ID is required''), st, [])
               else
                 (case kvGetEvent st eid of
                    None \<Rightarrow> (Inl (NotFoundError ''Event not found''), st, [])
                  | Some ev \<Rightarrow>
                      if uid \<in> set (signedUpStaff ev)
                      then (Inl (PreconditionError ''Already signed up for this event''), st, [])
                      else if isPast env ev
                      then (Inl (PreconditionError ''Cannot sign up for past events''), st, [])
                      else
                        let updatedEvent = ev
                              \<lparr> signedUpStaff := signedUpStaff ev @ [uid],
                                signUpTimestamps :=
                                  Some (AList.update uid (nowIso env) (orEmpty (signUpTimestamps ev))) \<rparr>
                        in (Inr updatedEvent, kvSetEvent eid updatedEvent st,
                            [KvSetEvent eid updatedEvent]))))"

text \<open>\<^verbatim>\<open>DELETE /signups/:eventId\<close>, for any authenticated caller.\<close>

definition cancelSignup ::
  "string option \<Rightarrow> string \<Rightarrow> store \<Rightarrow> (error + event) \<times> store \<times> effect list"
where
  "cancelSignup caller eid st =
     (case caller of
        None \<Rightarrow> (Inl (Unauthorized ''Unauthorized''), st, [])
      | Some uid \<Rightarrow>
          (case kvGetEvent st eid of
             None \<Rightarrow> (Inl (NotFoundError ''Event not found''), st, [])
           | Some ev \<Rightarrow>
               let timestamps = AList.delete uid (orEmpty (signUpTimestamps ev));
                   updatedEvent = ev
                     \<lparr> signedUpStaff := filter (\<lambda>i. i \<noteq> uid) (signedUpStaff ev),
                       signUpTimestamps := Some timestamps \<rparr>
               in (Inr updatedEvent, kvSetEvent eid updatedEvent st,
                   [KvSetEvent eid updatedEvent])))"

text \<open>
  \<^verbatim>\<open>POST /signups/admin\<close>: an administrator signs staff up, without level checks.
  A missing or non-array \<^verbatim>\<open>staffIds\<close> is \<open>None\<close>.
\<close>

definition adminSignup ::
  "env \<Rightarrow> string option \<Rightarrow> string option \<Rightarrow> string list option \<Rightarrow> store \<Rightarrow>
   (error + event \<times> nat) \<times> store \<times> effect list"
where
  "adminSignup env caller reqEventId reqStaffIds st =
     (case requireAdmin st caller of
        Inl e \<Rightarrow> (Inl e, st, [])
      | Inr _ \<Rightarrow>
          (case reqStaffIds of
             None \<Rightarrow> (Inl (ValidationError ''Event ID and staff IDs are required''), st, [])
           | Some staffIds \<Rightarrow>
               if \<not> truthy reqEventId
               then (Inl (ValidationError ''Event ID and staff IDs are required''), st, [])
               else
                 let eid = orEmpty reqEventId in
                 (case kvGetEvent st eid of
                    None \<Rightarrow> (Inl (NotFoundError ''Event not found''), st, [])
                  | Some ev \<Rightarrow>
                      if status ev = Some ''cancelled''
                      then (Inl (PreconditionError ''Cannot sign up staff for cancelled events''),
                            st, [])
                      else
                        let currentSignedUp = signedUpStaff ev;
                            currentTimestamps = orEmpty (signUpTimestamps ev);
                            newStaffIds = filter (\<lambda>i. i \<notin> set currentSignedUp) staffIds
                        in
                        if newStaffIds = []
                        then (Inl (PreconditionError ''All selected staff are already signed up''),
                              st, [])
                        else
                          let newTimestamps =
                                foldl (\<lambda>ts i. AList.update i (nowIso env) ts)
                                  currentTimestamps newStaffIds;
                              updatedEvent = ev
                                \<lparr> signedUpStaff := currentSignedUp @ newStaffIds,
                                  signUpTimestamps := Some newTimestamps \<rparr>
                          in (Inr (updatedEvent, length newStaffIds),
                              kvSetEvent eid updatedEvent st,
                              [KvSetEvent eid updatedEvent]))))"

section \<open>Awarding points\<close>

text \<open>
  The staff record after an award: \<^verbatim>\<open>{ ...staff, points: staff.points + event.points,
  level: await calculateLevel(newPoints) }\<close>.
\<close>

definition awarded :: "store \<Rightarrow> event \<Rightarrow> staff \<Rightarrow> staff" where
  "awarded st ev u =
     (let newPoints = userPoints u + points ev;
          newLevel = calculateLevel (levels st) newPoints
      in u\<lparr>userPoints := newPoints, userLevel := newLevel\<rparr>)"

definition completionRecord ::
  "env \<Rightarrow> string \<Rightarrow> string \<Rightarrow> string \<Rightarrow> string \<Rightarrow> event \<Rightarrow> adjustment" where
  "completionRecord env adjId admin eid sid ev =
     \<lparr> adjustmentId = adjId, adjStaffId = sid, adjPoints = points ev,
       reason = ''Completed Event: '' @ name ev, timestamp = nowIso env,
       adminId = admin, adjEventId = Some eid \<rparr>"

text \<open>
  \<^verbatim>\<open>POST /participation/confirm\<close>. The checks run in the order of the source:
  admin check, both ids present, event found, staff found, not yet awarded, selected.
  On success the response carries the staff record, the event, the adjustment and
  \<^verbatim>\<open>leveledUp\<close>.
\<close>

definition confirmOne ::
  "env \<Rightarrow> string option \<Rightarrow> string option \<Rightarrow> string option \<Rightarrow> store \<Rightarrow>
   (error + staff \<times> event \<times> adjustment \<times> bool) \<times> store \<times> effect list"
where
  "confirmOne env caller reqEventId reqStaffId st =
     (case requireAdmin st caller of
        Inl e \<Rightarrow> (Inl e, st, [])
      | Inr admin \<Rightarrow>
          if \<not> truthy reqEventId \<or> \<not> truthy reqStaffId
          then (Inl (ValidationError ''Event ID and staff ID are required''), st, [])
          else
            let eid = orEmpty reqEventId; sid = orEmpty reqStaffId in
            (case kvGetEvent st eid of
               None \<Rightarrow> (Inl (NotFoundError ''Event not found''), st, [])
             | Some ev \<Rightarrow>
                 (case kvGetUser st sid of
                    None \<Rightarrow> (Inl (NotFoundError ''Staff member not found''), st, [])
                  | Some u \<Rightarrow>
                      let awardedIds = orEmpty (pointsAwarded ev) in
                      if sid \<in> set awardedIds
                      then (Inl (PreconditionError ''Points already awarded to this staff member''),
                            st, [])
                      else if sid \<notin> set (orEmpty (confirmedStaff ev))
                      then (Inl (PreconditionError ''Staff member was not selected for this event''),
                            st, [])
                      else
                        let updatedStaff = awarded st ev u;
                            updatedEvent = ev\<lparr>pointsAwarded := Some (awardedIds @ [sid])\<rparr>;
                            adj = completionRecord env (fmtNum env (nowMs env)) admin eid sid ev;
                            st' = kvSetAdjustment (adjustmentId adj) adj
                                    (kvSetEvent eid updatedEvent (kvSetUser sid updatedStaff st))
                        in (Inr (updatedStaff, updatedEvent, adj, userLevel u \<noteq> userLevel updatedStaff),
                            st',
                            [KvSetUser sid updatedStaff, KvSetEvent eid updatedEvent,
                             KvSetAdjustment (adjustmentId adj) adj] @
                            sendEmail env sid (email u) PointsEarned))))"

text \<open>
  The loop of \<^verbatim>\<open>POST /participation/confirm-all\<close> over \<^verbatim>\<open>staffToConfirm\<close>. The
  accumulator is the store, the effects, and the three lists of the response
  (\<^verbatim>\<open>staffList\<close>, \<^verbatim>\<open>adjustments\<close>, \<^verbatim>\<open>levelUps\<close>). An id with no user record is
  skipped. The clock is read once per request.
\<close>

type_synonym levelUp = "string \<times> string \<times> string \<times> string"

type_synonym awardAcc = "store \<times> effect list \<times> staff list \<times> adjustment list \<times> levelUp list"

definition awardStep :: "env \<Rightarrow> string \<Rightarrow> string \<Rightarrow> event \<Rightarrow> awardAcc \<Rightarrow> string \<Rightarrow> awardAcc" where
  "awardStep env admin eid ev acc sid =
     (case acc of (st, tr, staffList, adjs, levelUps) \<Rightarrow>
        (case kvGetUser st sid of
           None \<Rightarrow> acc
         | Some u \<Rightarrow>
             let updatedStaff = awarded st ev u;
                 adj = completionRecord env (fmtNum env (nowMs env) @ ''-'' @ sid) admin eid sid ev;
                 st' = kvSetAdjustment (adjustmentId adj) adj (kvSetUser sid updatedStaff st)
             in (st',
                 tr @ [KvSetUser sid updatedStaff, KvSetAdjustment (adjustmentId adj) adj],
                 staffList @ [updatedStaff],
                 adjs @ [adj],
                 if userLevel u \<noteq> userLevel updatedStaff
                 then levelUps @ [(sid, userName u, userLevel u, userLevel updatedStaff)]
                 else levelUps)))"

definition confirmAll ::
  "env \<Rightarrow> string option \<Rightarrow> string option \<Rightarrow> store \<Rightarrow>
   (error + event \<times> nat \<times> staff list \<times> adjustment list \<times> levelUp list) \<times> store \<times> effect list"
where
  "confirmAll env caller reqEventId st =
     (case requireAdmin st caller of
        Inl e \<Rightarrow> (Inl e, st, [])
      | Inr admin \<Rightarrow>
          if \<not> truthy reqEventId
          then (Inl (ValidationError ''Event ID is required''), st, [])
          else
            let eid = orEmpty reqEventId in
            (case kvGetEvent st eid of
               None \<Rightarrow> (Inl (NotFoundError ''Event not found''), st, [])
             | Some ev \<Rightarrow>
                 let confirmed = orEmpty (confirmedStaff ev);
                     awardedIds = orEmpty (pointsAwarded ev);
                     staffToConfirm = filter (\<lambda>i. i \<notin> set awardedIds) confirmed
                 in
                 if staffToConfirm = []
                 then (Inl (PreconditionError ''No staff members awaiting point confirmation''),
                       st, [])
                 else
                   (case foldl (awardStep env admin eid ev) (st, [], [], [], []) staffToConfirm of
                      (st1, tr, staffList, adjs, levelUps) \<Rightarrow>
                        let updatedEvent = ev\<lparr>pointsAwarded := Some (awardedIds @ staffToConfirm)\<rparr>
                        in (Inr (updatedEvent, length staffToConfirm, staffList, adjs, levelUps),
                            kvSetEvent eid updatedEvent st1,
                            tr @ [KvSetEvent eid updatedEvent]))))"

section \<open>Closing an event\<close>

text \<open>
  The two recipient lists of \<^verbatim>\<open>POST /events/close\<close>, \<^verbatim>\<open>newlySelected\<close> and
  \<^verbatim>\<open>newlyDeselected\<close>, computed from the event as it was stored before the close.
\<close>

definition wasClosedBefore :: "event \<Rightarrow> bool" where
  "wasClosedBefore ev = (case hasBeenClosedBefore ev of None \<Rightarrow> False | Some b \<Rightarrow> b)"

definition closeRecipients :: "event \<Rightarrow> string list \<Rightarrow> string list \<times> string list" where
  "closeRecipients ev approvedStaffIds =
     (let signedUpStaffIds = signedUpStaff ev;
          rejectedStaffIds = filter (\<lambda>i. i \<notin> set approvedStaffIds) signedUpStaffIds;
          previouslyConfirmedStaff = orEmpty (confirmedStaff ev)
      in
      if wasClosedBefore ev
      then (filter (\<lambda>i. i \<notin> set previouslyConfirmedStaff) approvedStaffIds,
            filter (\<lambda>i. i \<in> set previouslyConfirmedStaff \<and> i \<notin> set approvedStaffIds)
              signedUpStaffIds)
      else (approvedStaffIds, rejectedStaffIds))"

text \<open>
  The handler. A body without \<^verbatim>\<open>approvedStaffIds\<close> makes
  \<^verbatim>\<open>approvedStaffIds.length\<close> throw before anything is stored, which the outer
  \<^verbatim>\<open>catch\<close> turns into the 500 answer.
\<close>

definition closeEvent ::
  "string option \<Rightarrow> string option \<Rightarrow> string list option \<Rightarrow> store \<Rightarrow>
   (error + event) \<times> store \<times> effect list"
where
  "closeEvent caller reqEventId reqApproved st =
     (case requireAdmin st caller of
        Inl e \<Rightarrow> (Inl e, st, [])
      | Inr _ \<Rightarrow>
          if \<not> truthy reqEventId
          then (Inl (ValidationError ''Event ID is required''), st, [])
          else
            let eid = orEmpty reqEventId in
            (case kvGetEvent st eid of
               None \<Rightarrow> (Inl (NotFoundError ''Event not found''), st, [])
             | Some ev \<Rightarrow>
                 (case reqApproved of
                    None \<Rightarrow> (Inl (FatalError ''Failed to close event''), st, [])
                  | Some approvedStaffIds \<Rightarrow>
                      let updatedEvent = ev
                            \<lparr> confirmedStaff := Some approvedStaffIds,
                              status := Some ''closed'',
                              hasBeenClosedBefore := Some True \<rparr>;
                          st' = kvSetEvent eid updatedEvent st
                      in
                      (case closeRecipients ev approvedStaffIds of
                         (newlySelected, newlyDeselected) \<Rightarrow>
                           (Inr updatedEvent, st',
                            KvSetEvent eid updatedEvent #
                            (if telegramConnected st'
                             then telegramNotify st' Selected newlySelected @
                                  telegramNotify st' Deselected newlyDeselected
                             else []))))))"

section \<open>Sample data\<close>

definition env0 :: env where
  "env0 = \<lparr> nowMs = 1000, nowIso = ''2025-11-01T00:00:00.000Z'',
            parseDate = (\<lambda>s. Some 2000), fmtDate = (\<lambda>s. s), fmtNum = (\<lambda>n. ''1000''),
            resendApiKey = Some ''re_key'', delivered = (\<lambda>e. False) \<rparr>"

definition level1 :: level where
  "level1 = \<lparr>levelId = ''level-1'', levelName = ''Level 1'', minPoints = 0, order = 0\<rparr>"

definition level2 :: level where
  "level2 = \<lparr>levelId = ''level-2'', levelName = ''Level 2'', minPoints = 1000, order = 1\<rparr>"

definition adminUser :: staff where
  "adminUser = \<lparr> userId = ''adm'', email = ''admin@company.com'', userName = ''Admin User'',
                 phone = None, telegramChatId = None, telegramUsername = None,
                 userPoints = 0, userLevel = '''', role = Some ''admin'',
                 userStatus = ''active'' \<rparr>"

definition staffA :: staff where
  "staffA = \<lparr> userId = ''A'', email = ''a@company.com'', userName = ''Sarah'',
              phone = Some ''+15550001'', telegramChatId = Some ''11'', telegramUsername = None,
              userPoints = 850, userLevel = ''Level 1'', role = Some ''staff'',
              userStatus = ''active'' \<rparr>"

definition staffB :: staff where
  "staffB = \<lparr> userId = ''B'', email = ''b@company.com'', userName = ''Mike'',
              phone = None, telegramChatId = Some ''22'', telegramUsername = None,
              userPoints = 1250, userLevel = ''Level 2'', role = Some ''staff'',
              userStatus = ''active'' \<rparr>"

definition staffC :: staff where
  "staffC = \<lparr> userId = ''C'', email = ''c@company.com'', userName = ''Emma'',
              phone = None, telegramChatId = Some ''33'', telegramUsername = None,
              userPoints = 450, userLevel = ''Level 1'', role = Some ''staff'',
              userStatus = ''active'' \<rparr>"

definition workshop :: event where
  "workshop = \<lparr> eventId = ''e1'', name = ''Workshop'', date = ''2025-11-15'', endDate = None,
                time = ''09:00'', duration = ''4 hours'', location = ''Room 101'',
                description = None, eventNotes = None, points = 150,
                requiredLevel = ''Level 1'', signedUpStaff = [''A'', ''B'', ''C''],
                signUpTimestamps = None, confirmedStaff = None, pointsAwarded = None,
                hasBeenClosedBefore = None, createdAt = ''2025-10-01'',
                status = Some ''open'' \<rparr>"

definition storeWith :: "event \<Rightarrow> store" where
  "storeWith ev =
     \<lparr> events = [(''e1'', ev)],
       users = [(''adm'', adminUser), (''A'', staffA), (''B'', staffB), (''C'', staffC)],
       levels = [level1, level2], adjustments = [],
       telegram = Some \<lparr>tgConnected = True, botToken = Some ''token''\<rparr>,
       whatsapp = Some \<lparr>waConnected = True\<rparr> \<rparr>"

text \<open>The workshop after a first close that approved A and B.\<close>

definition closedWorkshop :: event where
  "closedWorkshop = workshop \<lparr> confirmedStaff := Some [''A'', ''B''], status := Some ''closed'',
                               hasBeenClosedBefore := Some True \<rparr>"

section \<open>Sequences of award requests\<close>

text \<open>
  A request to one of the two award handlers, with the environment and the caller it
  arrives with, and the store after a sequence of such requests served one after the
  other (a request that fails leaves the store as it was).
\<close>

datatype call =
    ConfirmOne env "string option" "string option" "string option"
  | ConfirmAll env "string option" "string option"

fun applyCall :: "store \<Rightarrow> call \<Rightarrow> store" where
  "applyCall st (ConfirmOne env caller reqEventId reqStaffId) =
     fst (snd (confirmOne env caller reqEventId reqStaffId st))"
| "applyCall st (ConfirmAll env caller reqEventId) =
     fst (snd (confirmAll env caller reqEventId st))"

definition runCalls :: "store \<Rightarrow> call list \<Rightarrow> store" where
  "runCalls st calls = foldl applyCall st calls"

text \<open>The error a request is rejected with, \<open>None\<close> when it succeeds.\<close>

fun rejection :: "store \<Rightarrow> call \<Rightarrow> error option" where
  "rejection st (ConfirmOne env caller reqEventId reqStaffId) =
     (case fst (confirmOne env caller reqEventId reqStaffId st) of
        Inl e \<Rightarrow> Some e
      | Inr _ \<Rightarrow> None)"
| "rejection st (ConfirmAll env caller reqEventId) =
     (case fst (confirmAll env caller reqEventId st) of
        Inl e \<Rightarrow> Some e
      | Inr _ \<Rightarrow> None)"

text \<open>
  The workshop closed with a duplicated id in the approved list, as the close handler
  stores it, and the workshop closed with A and B approved after A was awarded.
\<close>

definition admin0 :: "string option" where
  "admin0 = Some ''adm''"

definition awardedWorkshop :: event where
  "awardedWorkshop = closedWorkshop \<lparr> pointsAwarded := Some [''A''] \<rparr>"

definition dupStore :: store where
  "dupStore = fst (snd (closeEvent admin0 (Some ''e1'') (Some [''A'', ''A'']) (storeWith workshop)))"

definition sampleCalls :: "call list" where
  "sampleCalls =
     [ConfirmOne env0 admin0 (Some ''e1'') (Some ''A''), ConfirmAll env0 admin0 (Some ''e1''),
      ConfirmAll env0 admin0 (Some ''e1''), ConfirmOne env0 admin0 (Some ''e1'') (Some ''B'')]"

text \<open>The workshop after it was cancelled, and a body for an edit.\<close>

definition cancelledWorkshop :: event where
  "cancelledWorkshop = workshop \<lparr> signedUpStaff := [], status := Some ''cancelled'' \<rparr>"

definition noData :: eventData where
  "noData = \<lparr> d_id = None, d_name = None, d_date = None, d_endDate = None, d_time = None,
              d_duration = None, d_location = None, d_description = None, d_notes = None,
              d_points = None, d_requiredLevel = None, d_signedUpStaff = None,
              d_signUpTimestamps = None, d_confirmedStaff = None, d_pointsAwarded = None,
              d_hasBeenClosedBefore = None, d_createdAt = None, d_status = None \<rparr>"

definition moveData :: eventData where
  "moveData = noData \<lparr> d_location := Some ''Hall A'', d_signedUpStaff := Some [''X''],
                       d_confirmedStaff := Some [''X''], d_hasBeenClosedBefore := Some True,
                       d_createdAt := Some ''1999-01-01'' \<rparr>"

definition relocateData :: eventData where
  "relocateData = noData \<lparr> d_location := Some ''Hall A'' \<rparr>"

text \<open>A delivery attempt on some channel, as opposed to a store write or a log line.\<close>

fun isAttempt :: "effect \<Rightarrow> bool" where
  "isAttempt (SendEmail _ _ _) = True"
| "isAttempt (SendTelegram _ _ _) = True"
| "isAttempt (SendWhatsApp _ _ _) = True"
| "isAttempt _ = False"

text \<open>
  The workshop with A and an id G signed up; G has no user record (the administrator's
  sign-up does not look the ids up).
\<close>

definition ghostWorkshop :: event where
  "ghostWorkshop = workshop \<lparr> signedUpStaff := [''A'', ''G''] \<rparr>"

text \<open>
  The workshop as a seed event of \<^verbatim>\<open>/init\<close> is stored, without a status, and the
  workshop after it was cancelled and reinstated.
\<close>

definition seedWorkshop :: event where
  "seedWorkshop = workshop \<lparr> status := None \<rparr>"

definition reinstatedWorkshop :: event where
  "reinstatedWorkshop = workshop \<lparr> status := Some ''upcoming'' \<rparr>"

text \<open>A body for an edit that carries a list of awarded ids, and a body for a new event.\<close>

definition awardData :: eventData where
  "awardData = noData \<lparr> d_pointsAwarded := Some [''X''] \<rparr>"

definition partyData :: newEventData where
  "partyData = \<lparr> n_id = None, n_name = ''Party'', n_date = ''2025-12-01'', n_endDate = None,
                  n_time = ''18:00'', n_duration = ''2 hours'', n_location = ''Lobby'',
                  n_description = None, n_notes = None, n_points = 50,
                  n_requiredLevel = ''Level 1'', n_signUpTimestamps = None,
                  n_confirmedStaff = Some [''A''], n_pointsAwarded = Some [''A''],
                  n_hasBeenClosedBefore = None, n_status = Some ''open'' \<rparr>"

section \<open>Requests that write events\<close>

text \<open>
  Every awarded id of the event is a confirmed id, and the same for every event in
  the store.
\<close>

definition within :: "event \<Rightarrow> bool" where
  "within ev = (set (orEmpty (pointsAwarded ev)) \<subseteq> set (orEmpty (confirmedStaff ev)))"

definition allWithin :: "store \<Rightarrow> bool" where
  "allWithin st = list_all within (map snd (events st))"

text \<open>
  A request to one of the handlers that write an event, and the store after it was
  served. \<open>keepsLists\<close> holds for the requests other than close, edit and create.
\<close>

datatype request =
    Award call
  | SignUp env "string option" "string option"
  | CancelSignUp "string option" string
  | AdminSignUp env "string option" "string option" "string list option"
  | Cancel env "string option" string
  | Reinstate "string option" string
  | DeleteEvent "string option" string
  | DeleteStaff "string option" string
  | Close "string option" "string option" "string list option"
  | Edit env "string option" string eventData
  | Create env "string option" string newEventData

fun serve :: "store \<Rightarrow> request \<Rightarrow> store" where
  "serve st (Award c) = applyCall st c"
| "serve st (SignUp env caller reqEventId) = fst (snd (signup env caller reqEventId st))"
| "serve st (CancelSignUp caller eid) = fst (snd (cancelSignup caller eid st))"
| "serve st (AdminSignUp env caller reqEventId reqStaffIds) =
     fst (snd (adminSignup env caller reqEventId reqStaffIds st))"
| "serve st (Cancel env caller eid) = fst (snd (cancelEvent env caller eid st))"
| "serve st (Reinstate caller eid) = fst (snd (reinstateEvent caller eid st))"
| "serve st (DeleteEvent caller eid) = fst (snd (deleteEvent caller eid st))"
| "serve st (DeleteStaff caller staffId) = fst (snd (deleteStaff caller staffId st))"
| "serve st (Close caller reqEventId reqApproved) =
     fst (snd (closeEvent caller reqEventId reqApproved st))"
| "serve st (Edit env caller eid d) = fst (snd (updateEvent env caller eid d st))"
| "serve st (Create env caller newId b) = fst (snd (createEvent env caller newId b st))"

fun keepsLists :: "request \<Rightarrow> bool" where
  "keepsLists (Close _ _ _) = False"
| "keepsLists (Edit _ _ _ _) = False"
| "keepsLists (Create _ _ _ _) = False"
| "keepsLists _ = True"

text \<open>
  Requests of every kind that keeps the lists, served on the workshop closed with A
  and B approved after A was awarded.
\<close>

definition sampleRequests :: "request list" where
  "sampleRequests =
     [Award (ConfirmAll env0 admin0 (Some ''e1'')),
      SignUp env0 (Some ''Z'') (Some ''e1''),
      CancelSignUp (Some ''C'') ''e1'',
      AdminSignUp env0 admin0 (Some ''e1'') (Some [''C'']),
      DeleteStaff admin0 ''B'',
      Cancel env0 admin0 ''e1'',
      Reinstate admin0 ''e1'',
      Award (ConfirmOne env0 admin0 (Some ''e1'') (Some ''A'')),
      DeleteEvent admin0 ''e0'']"

section \<open>The store\<close>

lemma isBlank_text: "s \<noteq> [] \<Longrightarrow> spaceAtHead s = 0 \<Longrightarrow> \<not> isBlank s"
  by (subst isBlank.simps) simp

lemma isBlank_space:
  "s \<noteq> [] \<Longrightarrow> spaceAtHead s = n \<Longrightarrow> 0 < n \<Longrightarrow> isBlank s = isBlank (drop n s)"
  by (subst isBlank.simps) auto

text \<open>
  A text of a no-break space (U+00A0) and a line separator (U+2028) is blank, as is a
  text of ASCII spaces; a chat id in digits is not.
\<close>

lemma isBlank_examples:
  "isBlank [CHR 0xC2, CHR 0xA0, CHR 0xE2, CHR 0x80, CHR 0xA8] \<and> isBlank ''  '' \<and>
   \<not> isBlank ''11'' \<and> \<not> isBlank '' 1''"
proof -
  have e: "isBlank []" by (subst isBlank.simps) simp
  have a: "isBlank [CHR 0xE2, CHR 0x80, CHR 0xA8]"
    using isBlank_space [of "[CHR 0xE2, CHR 0x80, CHR 0xA8]" 3] e
    by (simp add: spaceAtHead_def whiteSpace_def)
  have b: "isBlank [CHR 0xC2, CHR 0xA0, CHR 0xE2, CHR 0x80, CHR 0xA8]"
    using isBlank_space [of "[CHR 0xC2, CHR 0xA0, CHR 0xE2, CHR 0x80, CHR 0xA8]" 2] a
    by (simp add: spaceAtHead_def whiteSpace_def)
  have c: "isBlank '' ''"
    using isBlank_space [of "'' ''" 1] e by (simp add: spaceAtHead_def whiteSpace_def)
  have d: "isBlank ''  ''"
    using isBlank_space [of "''  ''" 1] c by (simp add: spaceAtHead_def whiteSpace_def)
  have f: "\<not> isBlank ''11''" "\<not> isBlank ''1''"
    by (simp_all add: isBlank_text spaceAtHead_def whiteSpace_def)
  have g: "\<not> isBlank '' 1''"
    using isBlank_space [of "'' 1''" 1] f(2) by (simp add: spaceAtHead_def whiteSpace_def)
  from b d f(1) g show ?thesis by blast
qed

lemma kvGetEvent_kvSetEvent [simp]:
  "kvGetEvent (kvSetEvent k e st) k' = (if k' = k then Some e else kvGetEvent st k')"
  by (simp add: kvGetEvent_def kvSetEvent_def update_conv')

lemma kvGetEvent_kvSetUser [simp]: "kvGetEvent (kvSetUser k u st) = kvGetEvent st"
  by (simp add: kvGetEvent_def kvSetUser_def fun_eq_iff)

lemma kvGetEvent_kvSetAdjustment [simp]: "kvGetEvent (kvSetAdjustment k a st) = kvGetEvent st"
  by (simp add: kvGetEvent_def kvSetAdjustment_def fun_eq_iff)

lemma kvGetUser_kvSetEvent [simp]: "kvGetUser (kvSetEvent k e st) = kvGetUser st"
  by (simp add: kvGetUser_def kvSetEvent_def fun_eq_iff)

lemma users_kvSetEvent [simp]: "users (kvSetEvent k e st) = users st"
  by (simp add: kvSetEvent_def)

lemma kvSetEvent_twice [simp]: "kvSetEvent k e (kvSetEvent k e' st) = kvSetEvent k e st"
  by (simp add: kvSetEvent_def)

lemma telegramConnected_kvSetEvent [simp]:
  "telegramConnected (kvSetEvent k e st) = telegramConnected st"
  by (simp add: telegramConnected_def kvSetEvent_def)

lemma telegramNotify_kvSetEvent [simp]:
  "telegramNotify (kvSetEvent k e st) n ids = telegramNotify st n ids"
  by (simp add: telegramNotify_def)

lemma telegramNotify_Nil [simp]: "telegramNotify st n [] = []"
  by (simp add: telegramNotify_def)

lemma telegramTo_sends:
  "x \<in> set (telegramTo n rid u) \<Longrightarrow> \<exists>c. x = SendTelegram rid c n"
  by (auto simp: telegramTo_def split: option.splits if_splits)

lemma telegramNotify_sends:
  "SendTelegram x c k \<in> set (telegramNotify st n ids) \<Longrightarrow> x \<in> set ids \<and> k = n"
  by (auto simp: telegramNotify_def split: option.splits dest: telegramTo_sends)

lemmas sample_defs = env0_def level1_def level2_def adminUser_def staffA_def staffB_def
  staffC_def workshop_def storeWith_def closedWorkshop_def admin0_def awardedWorkshop_def

lemmas store_defs = kvGetEvent_def kvGetUser_def kvSetEvent_def kvSetUser_def
  kvSetAdjustment_def requireAdmin_def truthy_def orEmpty_def

lemmas award_defs = confirmOne_def confirmAll_def awardStep_def awarded_def
  completionRecord_def calculateLevel_def sendEmail_def FROM_EMAIL_def Let_def

lemmas close_defs = closeEvent_def closeRecipients_def wasClosedBefore_def
  telegramConnected_def telegramNotify_def telegramTo_def chatIdOf_def isBlank_text
  spaceAtHead_def whiteSpace_def Let_def

section \<open>Properties of the level resolver\<close>

lemma find_Some_mem: "find P xs = Some x \<Longrightarrow> x \<in> set xs \<and> P x"
  by (induction xs) (auto split: if_splits)

lemma find_sorted_least:
  assumes "find P xs = Some x" and "sorted (map f xs)" and "y \<in> set xs" and "P y"
  shows "f x \<le> f y"
proof -
  from assms(1) obtain i where i: "i < length xs" "x = xs ! i" "\<forall>j<i. \<not> P (xs ! j)"
    by (auto simp: find_Some_iff)
  from assms(3) obtain k where k: "k < length xs" "y = xs ! k"
    by (auto simp: in_set_conv_nth)
  with assms(4) i(3) have "i \<le> k"
    by (metis not_le_imp_less)
  with assms(2) k(1) i(1) have "map f xs ! i \<le> map f xs ! k"
    by (simp add: sorted_iff_nth_mono del: nth_map)
  with i k show ?thesis by simp
qed

lemma hd_sorted_least:
  assumes "sort_key f xs = y # ys" and "z \<in> set xs"
  shows "f y \<le> f z"
proof -
  have "sorted (map f (y # ys))"
    using sorted_sort_key [of f xs] assms(1) by simp
  moreover have "z \<in> set (y # ys)"
    using assms set_sort [of f xs] by (metis)
  ultimately show ?thesis by auto
qed

text \<open>
  C5. With no level stored the resolver returns the empty name; when some level has
  \<open>minPoints \<le> p\<close> it returns the name of a qualifying level of greatest \<open>minPoints\<close>;
  when levels exist and none qualifies it returns the name of a level of smallest
  \<open>order\<close>.
\<close>

theorem calculateLevel_resolve:
  "(calculateLevel [] p = '''') \<and>
   ((\<exists>l\<in>set lvs. minPoints l \<le> p) \<longrightarrow>
      (\<exists>l\<in>set lvs. calculateLevel lvs p = levelName l \<and> minPoints l \<le> p \<and>
         (\<forall>l'\<in>set lvs. minPoints l' \<le> p \<longrightarrow> minPoints l' \<le> minPoints l))) \<and>
   (lvs \<noteq> [] \<and> (\<forall>l\<in>set lvs. p < minPoints l) \<longrightarrow>
      (\<exists>l\<in>set lvs. calculateLevel lvs p = levelName l \<and>
         (\<forall>l'\<in>set lvs. order l \<le> order l')))"
proof (intro conjI impI)
  show "calculateLevel [] p = ''''"
    by (simp add: calculateLevel_def)
next
  assume q: "\<exists>l\<in>set lvs. minPoints l \<le> p"
  let ?s = "sort_key (\<lambda>l. - minPoints l) lvs"
  from q have ne: "lvs \<noteq> []" by auto
  from q have "\<exists>l\<in>set ?s. minPoints l \<le> p" by simp
  then obtain l where f: "find (\<lambda>l. p \<ge> minPoints l) ?s = Some l"
    by (cases "find (\<lambda>l. p \<ge> minPoints l) ?s") (auto simp: find_None_iff)
  then have lin: "l \<in> set lvs" and lq: "minPoints l \<le> p"
    using find_Some_mem [OF f] by simp_all
  have "\<forall>l'\<in>set lvs. minPoints l' \<le> p \<longrightarrow> minPoints l' \<le> minPoints l"
  proof (intro ballI impI)
    fix l' assume "l' \<in> set lvs" "minPoints l' \<le> p"
    then have "- minPoints l \<le> - minPoints l'"
      using find_sorted_least [OF f, of "\<lambda>l. - minPoints l" l'] by simp
    then show "minPoints l' \<le> minPoints l" by simp
  qed
  moreover have "calculateLevel lvs p = levelName l"
    using ne f by (simp add: calculateLevel_def)
  ultimately show "\<exists>l\<in>set lvs. calculateLevel lvs p = levelName l \<and> minPoints l \<le> p \<and>
         (\<forall>l'\<in>set lvs. minPoints l' \<le> p \<longrightarrow> minPoints l' \<le> minPoints l)"
    using lin lq by blast
next
  assume a: "lvs \<noteq> [] \<and> (\<forall>l\<in>set lvs. p < minPoints l)"
  let ?s = "sort_key (\<lambda>l. - minPoints l) lvs"
  from a have nf: "find (\<lambda>l. p \<ge> minPoints l) ?s = None"
    by (auto simp: find_None_iff)
  from a have "sort_key order ?s \<noteq> []"
    by (metis length_0_conv length_sort)
  then obtain y ys where c: "sort_key order ?s = y # ys"
    by (cases "sort_key order ?s") auto
  then have yin: "y \<in> set lvs"
    by (metis list.set_intros(1) set_sort)
  have "\<forall>l'\<in>set lvs. order y \<le> order l'"
    using hd_sorted_least [OF c] by simp
  moreover have "calculateLevel lvs p = levelName y"
    using a nf c by (simp add: calculateLevel_def)
  ultimately show "\<exists>l\<in>set lvs. calculateLevel lvs p = levelName l \<and>
         (\<forall>l'\<in>set lvs. order l \<le> order l')"
    using yin by blast
qed


theorem calculateLevel_resolve_witness:
  "(\<exists>l\<in>set [level1, level2]. minPoints l \<le> 1250) \<and>
   (\<exists>l\<in>set [level1, level2].
      calculateLevel [level1, level2] 1250 = levelName l \<and> minPoints l \<le> 1250 \<and>
      (\<forall>l'\<in>set [level1, level2]. minPoints l' \<le> 1250 \<longrightarrow> minPoints l' \<le> minPoints l)) \<and>
   calculateLevel [level1, level2] 1250 = ''Level 2'' \<and>
   \<not> (\<exists>l\<in>set [level2, level1\<lparr>minPoints := 500\<rparr>]. minPoints l \<le> 100) \<and>
   (\<exists>l\<in>set [level2, level1\<lparr>minPoints := 500\<rparr>].
      calculateLevel [level2, level1\<lparr>minPoints := 500\<rparr>] 100 = levelName l \<and>
      (\<forall>l'\<in>set [level2, level1\<lparr>minPoints := 500\<rparr>]. order l \<le> order l')) \<and>
   calculateLevel [level2, level1\<lparr>minPoints := 500\<rparr>] 100 = ''Level 1''"
proof -
  have h1: "\<exists>l\<in>set [level1, level2]. minPoints l \<le> 1250"
    by (simp add: level1_def)
  have h2: "[level2, level1\<lparr>minPoints := 500\<rparr>] \<noteq> [] \<and>
      (\<forall>l\<in>set [level2, level1\<lparr>minPoints := 500\<rparr>]. 100 < minPoints l)"
    by (simp add: level2_def)
  have v1: "calculateLevel [level1, level2] 1250 = ''Level 2''"
    by (simp add: calculateLevel_def level1_def level2_def)
  have v2: "calculateLevel [level2, level1\<lparr>minPoints := 500\<rparr>] 100 = ''Level 1''"
    by (simp add: calculateLevel_def level1_def level2_def)
  have h3: "\<not> (\<exists>l\<in>set [level2, level1\<lparr>minPoints := 500\<rparr>]. minPoints l \<le> 100)"
    by (simp add: level1_def level2_def)
  show ?thesis
    using h1 h2 h3 v1 v2 calculateLevel_resolve [of 1250 "[level1, level2]"]
      calculateLevel_resolve [of 100 "[level2, level1\<lparr>minPoints := 500\<rparr>]"]
    by blast
qed

section \<open>Closing: who is notified\<close>

text \<open>
  C1. A close that passes the admin and lookup checks stores the approved list as \<open>confirmedStaff\<close>
  and sets \<open>hasBeenClosedBefore\<close>. With S the signed-up ids, P the previously
  confirmed ids and A the approved ids: on a re-close the ids notified as selected are
  A - P and those notified as deselected are (S \<inter> P) - A; on a first close they
  are A and S - A. On a re-close a staff member whose membership of the confirmed list
  did not change is in neither list and no message is addressed to them. The messages
  are sent over Telegram, when it is connected, to the ids of the two lists.
\<close>

theorem closeEvent_notifies_changes:
  assumes "requireAdmin st caller = Inr admin" and "eid \<noteq> []"
    and "kvGetEvent st eid = Some ev"
  shows "\<exists>sel desel upd msgs.
           closeEvent caller (Some eid) (Some approved) st =
             (Inr upd, kvSetEvent eid upd st, KvSetEvent eid upd # msgs) \<and>
           confirmedStaff upd = Some approved \<and> hasBeenClosedBefore upd = Some True \<and>
           signedUpStaff upd = signedUpStaff ev \<and>
           closeRecipients ev approved = (sel, desel) \<and>
           msgs = (if telegramConnected st
                   then telegramNotify st Selected sel @ telegramNotify st Deselected desel
                   else []) \<and>
           (wasClosedBefore ev \<longrightarrow>
              set sel = set approved - set (orEmpty (confirmedStaff ev)) \<and>
              set desel = (set (signedUpStaff ev) \<inter> set (orEmpty (confirmedStaff ev))) - set approved) \<and>
           (\<not> wasClosedBefore ev \<longrightarrow>
              set sel = set approved \<and> set desel = set (signedUpStaff ev) - set approved) \<and>
           (\<forall>x. wasClosedBefore ev \<and> (x \<in> set approved \<longleftrightarrow> x \<in> set (orEmpty (confirmedStaff ev))) \<longrightarrow>
              x \<notin> set sel \<and> x \<notin> set desel \<and> (\<forall>c k. SendTelegram x c k \<notin> set msgs))"
proof -
  obtain sel desel where r: "closeRecipients ev approved = (sel, desel)"
    by (cases "closeRecipients ev approved")
  let ?upd = "ev\<lparr>confirmedStaff := Some approved, status := Some ''closed'',
                  hasBeenClosedBefore := Some True\<rparr>"
  let ?msgs = "if telegramConnected st
               then telegramNotify st Selected sel @ telegramNotify st Deselected desel else []"
  have run: "closeEvent caller (Some eid) (Some approved) st =
          (Inr ?upd, kvSetEvent eid ?upd st, KvSetEvent eid ?upd # ?msgs)"
    using assms r by (simp add: closeEvent_def truthy_def orEmpty_def Let_def)
  have re: "wasClosedBefore ev \<longrightarrow>
              set sel = set approved - set (orEmpty (confirmedStaff ev)) \<and>
              set desel = (set (signedUpStaff ev) \<inter> set (orEmpty (confirmedStaff ev))) - set approved"
    using r by (auto simp: closeRecipients_def Let_def)
  have first: "\<not> wasClosedBefore ev \<longrightarrow>
              set sel = set approved \<and> set desel = set (signedUpStaff ev) - set approved"
    using r by (auto simp: closeRecipients_def Let_def)
  have quiet: "\<forall>x. wasClosedBefore ev \<and> (x \<in> set approved \<longleftrightarrow> x \<in> set (orEmpty (confirmedStaff ev))) \<longrightarrow>
              x \<notin> set sel \<and> x \<notin> set desel \<and> (\<forall>c k. SendTelegram x c k \<notin> set ?msgs)"
  proof (intro allI impI)
    fix x
    assume a: "wasClosedBefore ev \<and> (x \<in> set approved \<longleftrightarrow> x \<in> set (orEmpty (confirmedStaff ev)))"
    with re have n: "x \<notin> set sel" "x \<notin> set desel" by auto
    have "\<forall>c k. SendTelegram x c k \<notin> set ?msgs"
      using n by (auto dest: telegramNotify_sends)
    with n show "x \<notin> set sel \<and> x \<notin> set desel \<and> (\<forall>c k. SendTelegram x c k \<notin> set ?msgs)"
      by simp
  qed
  show ?thesis
    using run r re first quiet by (intro exI [of _ sel] exI [of _ desel] exI [of _ ?upd] exI [of _ ?msgs]) simp
qed

theorem closeEvent_notifies_changes_witness:
  "requireAdmin (storeWith workshop) (Some ''adm'') = Inr ''adm'' \<and>
   kvGetEvent (storeWith workshop) ''e1'' = Some workshop \<and>
   \<not> wasClosedBefore workshop \<and>
   closeEvent (Some ''adm'') (Some ''e1'') (Some [''A'', ''B'']) (storeWith workshop) =
     (Inr closedWorkshop, storeWith closedWorkshop,
      [KvSetEvent ''e1'' closedWorkshop,
       SendTelegram ''A'' ''11'' Selected, SendTelegram ''B'' ''22'' Selected,
       SendTelegram ''C'' ''33'' Deselected]) \<and>
   requireAdmin (storeWith closedWorkshop) (Some ''adm'') = Inr ''adm'' \<and>
   kvGetEvent (storeWith closedWorkshop) ''e1'' = Some closedWorkshop \<and>
   wasClosedBefore closedWorkshop \<and>
   closeRecipients closedWorkshop [''A'', ''C''] = ([''C''], [''B'']) \<and>
   (\<exists>upd msgs.
      closeEvent (Some ''adm'') (Some ''e1'') (Some [''A'', ''C'']) (storeWith closedWorkshop) =
        (Inr upd, kvSetEvent ''e1'' upd (storeWith closedWorkshop), KvSetEvent ''e1'' upd # msgs) \<and>
      confirmedStaff upd = Some [''A'', ''C''] \<and>
      msgs = [SendTelegram ''C'' ''33'' Selected, SendTelegram ''B'' ''22'' Deselected] \<and>
      (\<forall>c k. SendTelegram ''A'' c k \<notin> set msgs))"
proof -
  have g1: "requireAdmin (storeWith workshop) (Some ''adm'') = Inr ''adm''"
    by (simp add: requireAdmin_def kvGetUser_def storeWith_def adminUser_def)
  have g3: "kvGetEvent (storeWith workshop) ''e1'' = Some workshop"
    by (simp add: kvGetEvent_def storeWith_def)
  have nw: "\<not> wasClosedBefore workshop"
    by (simp add: wasClosedBefore_def workshop_def)
  have r0: "closeRecipients workshop [''A'', ''B''] = ([''A'', ''B''], [''C''])"
    by (simp add: closeRecipients_def Let_def wasClosedBefore_def workshop_def)
  have tc0: "telegramConnected (storeWith workshop)"
    by (simp add: telegramConnected_def storeWith_def)
  have m0: "telegramNotify (storeWith workshop) Selected [''A'', ''B''] @
            telegramNotify (storeWith workshop) Deselected [''C''] =
            [SendTelegram ''A'' ''11'' Selected, SendTelegram ''B'' ''22'' Selected,
             SendTelegram ''C'' ''33'' Deselected]"
    by (simp add: telegramNotify_def telegramTo_def chatIdOf_def truthy_def isBlank_text
        spaceAtHead_def whiteSpace_def kvGetUser_def storeWith_def staffA_def staffB_def staffC_def)
  have s0: "kvSetEvent ''e1'' closedWorkshop (storeWith workshop) = storeWith closedWorkshop"
    by (simp add: kvSetEvent_def storeWith_def)
  have first: "closeEvent (Some ''adm'') (Some ''e1'') (Some [''A'', ''B'']) (storeWith workshop) =
     (Inr closedWorkshop, storeWith closedWorkshop,
      [KvSetEvent ''e1'' closedWorkshop,
       SendTelegram ''A'' ''11'' Selected, SendTelegram ''B'' ''22'' Selected,
       SendTelegram ''C'' ''33'' Deselected])"
    using g1 g3 r0 tc0 m0 s0
    by (simp add: closeEvent_def truthy_def orEmpty_def Let_def closedWorkshop_def)
  have h1: "requireAdmin (storeWith closedWorkshop) (Some ''adm'') = Inr ''adm''"
    by (simp add: requireAdmin_def kvGetUser_def storeWith_def adminUser_def)
  have h2: "''e1'' \<noteq> []" by simp
  have h3: "kvGetEvent (storeWith closedWorkshop) ''e1'' = Some closedWorkshop"
    by (simp add: kvGetEvent_def storeWith_def)
  have w: "wasClosedBefore closedWorkshop"
    by (simp add: wasClosedBefore_def closedWorkshop_def)
  have r: "closeRecipients closedWorkshop [''A'', ''C''] = ([''C''], [''B''])"
    by (simp add: closeRecipients_def Let_def wasClosedBefore_def closedWorkshop_def workshop_def
        orEmpty_def)
  have tc: "telegramConnected (storeWith closedWorkshop)"
    by (simp add: telegramConnected_def storeWith_def)
  have m: "telegramNotify (storeWith closedWorkshop) Selected [''C''] @
           telegramNotify (storeWith closedWorkshop) Deselected [''B''] =
           [SendTelegram ''C'' ''33'' Selected, SendTelegram ''B'' ''22'' Deselected]"
    by (simp add: telegramNotify_def telegramTo_def chatIdOf_def truthy_def isBlank_text
        spaceAtHead_def whiteSpace_def kvGetUser_def storeWith_def staffB_def staffC_def)
  from closeEvent_notifies_changes [OF h1 h2 h3, of "[''A'', ''C'']"] r tc m
  have "\<exists>upd msgs.
      closeEvent (Some ''adm'') (Some ''e1'') (Some [''A'', ''C'']) (storeWith closedWorkshop) =
        (Inr upd, kvSetEvent ''e1'' upd (storeWith closedWorkshop), KvSetEvent ''e1'' upd # msgs) \<and>
      confirmedStaff upd = Some [''A'', ''C''] \<and>
      msgs = [SendTelegram ''C'' ''33'' Selected, SendTelegram ''B'' ''22'' Deselected] \<and>
      (\<forall>c k. SendTelegram ''A'' c k \<notin> set msgs)"
    by auto
  with g1 g3 nw first h1 h3 w r show ?thesis by blast
qed

section \<open>What an award request does to the stored events\<close>

lemma awardStep_events:
  "kvGetEvent (fst (awardStep env admin eid ev acc sid)) = kvGetEvent (fst acc)"
  by (cases acc) (auto simp: awardStep_def Let_def split: option.splits)

lemma awardLoop_events:
  "kvGetEvent (fst (foldl (awardStep env admin eid ev) acc ids)) = kvGetEvent (fst acc)"
  by (induction ids arbitrary: acc) (simp_all add: awardStep_events)

lemma confirmOne_event:
  assumes "kvGetEvent st k = Some ev"
  shows "\<exists>ev' extra. kvGetEvent (fst (snd (confirmOne env caller re rs st))) k = Some ev' \<and>
           confirmedStaff ev' = confirmedStaff ev \<and>
           orEmpty (pointsAwarded ev') = orEmpty (pointsAwarded ev) @ extra \<and>
           set extra \<subseteq> set (orEmpty (confirmedStaff ev)) - set (orEmpty (pointsAwarded ev)) \<and>
           distinct extra"
proof (cases "\<exists>r tr. confirmOne env caller re rs st = (Inl r, st, tr)")
  case True
  then show ?thesis using assms by (auto intro!: exI [of _ ev] exI [of _ "[]"])
next
  case False
  then obtain admin u ev0 where
    ok: "requireAdmin st caller = Inr admin" "truthy re" "truthy rs"
        "kvGetEvent st (orEmpty re) = Some ev0" "kvGetUser st (orEmpty rs) = Some u"
        "orEmpty rs \<notin> set (orEmpty (pointsAwarded ev0))"
        "orEmpty rs \<in> set (orEmpty (confirmedStaff ev0))"
    by (auto simp: confirmOne_def Let_def split: sum.splits option.splits if_splits)
  let ?upd = "ev0\<lparr>pointsAwarded := Some (orEmpty (pointsAwarded ev0) @ [orEmpty rs])\<rparr>"
  have get: "kvGetEvent (fst (snd (confirmOne env caller re rs st))) k =
             (if k = orEmpty re then Some ?upd else kvGetEvent st k)"
    using ok by (simp add: confirmOne_def Let_def)
  show ?thesis
  proof (cases "k = orEmpty re")
    case True
    with assms ok have "ev0 = ev" by simp
    with get True ok show ?thesis
      by (intro exI [of _ ?upd] exI [of _ "[orEmpty rs]"]) (simp add: orEmpty_def)
  next
    case False
    with get assms show ?thesis by (auto intro!: exI [of _ ev] exI [of _ "[]"])
  qed
qed

lemma confirmAll_event:
  assumes "kvGetEvent st k = Some ev"
  shows "\<exists>ev' extra. kvGetEvent (fst (snd (confirmAll env caller re st))) k = Some ev' \<and>
           confirmedStaff ev' = confirmedStaff ev \<and>
           orEmpty (pointsAwarded ev') = orEmpty (pointsAwarded ev) @ extra \<and>
           set extra \<subseteq> set (orEmpty (confirmedStaff ev)) - set (orEmpty (pointsAwarded ev)) \<and>
           (distinct (orEmpty (confirmedStaff ev)) \<longrightarrow> distinct extra)"
proof (cases "\<exists>r tr. confirmAll env caller re st = (Inl r, st, tr)")
  case True
  then show ?thesis using assms by (auto intro!: exI [of _ ev] exI [of _ "[]"])
next
  case False
  then obtain admin ev0 where
    ok: "requireAdmin st caller = Inr admin" "truthy re"
        "kvGetEvent st (orEmpty re) = Some ev0"
        "filter (\<lambda>i. i \<notin> set (orEmpty (pointsAwarded ev0))) (orEmpty (confirmedStaff ev0)) \<noteq> []"
    by (auto simp: confirmAll_def Let_def split: sum.splits option.splits if_splits)
  let ?todo = "filter (\<lambda>i. i \<notin> set (orEmpty (pointsAwarded ev0))) (orEmpty (confirmedStaff ev0))"
  let ?upd = "ev0\<lparr>pointsAwarded := Some (orEmpty (pointsAwarded ev0) @ ?todo)\<rparr>"
  let ?loop = "foldl (awardStep env admin (orEmpty re) ev0) (st, [], [], [], []) ?todo"
  have st1: "kvGetEvent (fst ?loop) = kvGetEvent st"
    using awardLoop_events [of env admin "orEmpty re" ev0 "(st, [], [], [], [])" ?todo] by simp
  have "fst (snd (confirmAll env caller re st)) = kvSetEvent (orEmpty re) ?upd (fst ?loop)"
    using ok by (simp add: confirmAll_def Let_def split: prod.splits)
  then have get: "kvGetEvent (fst (snd (confirmAll env caller re st))) k =
             (if k = orEmpty re then Some ?upd else kvGetEvent st k)"
    using st1 by simp
  show ?thesis
  proof (cases "k = orEmpty re")
    case True
    with assms ok have "ev0 = ev" by simp
    with get True ok show ?thesis
      by (intro exI [of _ ?upd] exI [of _ ?todo]) (auto simp: orEmpty_def)
  next
    case False
    with get assms show ?thesis by (auto intro!: exI [of _ ev] exI [of _ "[]"])
  qed
qed

lemma applyCall_event:
  assumes "kvGetEvent st k = Some ev"
  shows "\<exists>ev' extra. kvGetEvent (applyCall st c) k = Some ev' \<and>
           confirmedStaff ev' = confirmedStaff ev \<and>
           orEmpty (pointsAwarded ev') = orEmpty (pointsAwarded ev) @ extra \<and>
           set extra \<subseteq> set (orEmpty (confirmedStaff ev)) - set (orEmpty (pointsAwarded ev)) \<and>
           (distinct (orEmpty (confirmedStaff ev)) \<longrightarrow> distinct extra)"
proof (cases c)
  case (ConfirmOne env caller re rs)
  with confirmOne_event [OF assms, of env caller re rs] show ?thesis by auto
next
  case (ConfirmAll env caller re)
  with confirmAll_event [OF assms, of env caller re] show ?thesis by auto
qed

lemma runCalls_event:
  assumes "kvGetEvent st k = Some ev"
  shows "\<exists>ev' extra. kvGetEvent (runCalls st calls) k = Some ev' \<and>
           confirmedStaff ev' = confirmedStaff ev \<and>
           orEmpty (pointsAwarded ev') = orEmpty (pointsAwarded ev) @ extra \<and>
           set extra \<subseteq> set (orEmpty (confirmedStaff ev)) - set (orEmpty (pointsAwarded ev)) \<and>
           (distinct (orEmpty (confirmedStaff ev)) \<longrightarrow> distinct extra)"
  using assms
proof (induction calls arbitrary: st ev)
  case Nil
  then show ?case by (auto simp: runCalls_def intro!: exI [of _ ev] exI [of _ "[]"])
next
  case (Cons c calls)
  from applyCall_event [OF Cons.prems, of c] obtain ev1 x1 where
    s1: "kvGetEvent (applyCall st c) k = Some ev1" "confirmedStaff ev1 = confirmedStaff ev"
        "orEmpty (pointsAwarded ev1) = orEmpty (pointsAwarded ev) @ x1"
        "set x1 \<subseteq> set (orEmpty (confirmedStaff ev)) - set (orEmpty (pointsAwarded ev))"
        "distinct (orEmpty (confirmedStaff ev)) \<longrightarrow> distinct x1"
    by blast
  from Cons.IH [OF s1(1)] obtain ev2 x2 where
    s2: "kvGetEvent (runCalls (applyCall st c) calls) k = Some ev2"
        "confirmedStaff ev2 = confirmedStaff ev1"
        "orEmpty (pointsAwarded ev2) = orEmpty (pointsAwarded ev1) @ x2"
        "set x2 \<subseteq> set (orEmpty (confirmedStaff ev1)) - set (orEmpty (pointsAwarded ev1))"
        "distinct (orEmpty (confirmedStaff ev1)) \<longrightarrow> distinct x2"
    by blast
  have run: "runCalls st (c # calls) = runCalls (applyCall st c) calls"
    by (simp add: runCalls_def)
  have sub: "set (x1 @ x2) \<subseteq> set (orEmpty (confirmedStaff ev)) - set (orEmpty (pointsAwarded ev))"
    using s1 s2 by auto
  have dis: "distinct (orEmpty (confirmedStaff ev)) \<longrightarrow> distinct (x1 @ x2)"
    using s1 s2 by auto
  show ?case
    using run s1 s2 sub dis by (intro exI [of _ ev2] exI [of _ "x1 @ x2"]) simp
qed

section \<open>Awards are not repeated\<close>

text \<open>
  Where the handlers do guard against a repeat. For a stored event and any sequence of
  confirmOne and confirmAll requests: the event stays stored with the same confirmed
  list, and an id that is already in \<open>pointsAwarded\<close> is never appended again (it
  occurs as often after the sequence as before); a confirmOne for an id already in
  \<open>pointsAwarded\<close> fails and stores nothing. When the confirmed list and
  \<open>pointsAwarded\<close> hold no id twice at the start, \<open>pointsAwarded\<close> holds no id twice
  after the sequence.
\<close>

lemma awarded_ids_not_appended_again:
  assumes "kvGetEvent st eid = Some ev"
  shows "(\<exists>ev'. kvGetEvent (runCalls st calls) eid = Some ev' \<and>
            confirmedStaff ev' = confirmedStaff ev \<and>
            (\<forall>s\<in>set (orEmpty (pointsAwarded ev)).
               count_list (orEmpty (pointsAwarded ev')) s = count_list (orEmpty (pointsAwarded ev)) s) \<and>
            (distinct (orEmpty (confirmedStaff ev)) \<and> distinct (orEmpty (pointsAwarded ev)) \<longrightarrow>
               distinct (orEmpty (pointsAwarded ev')))) \<and>
         (sid \<in> set (orEmpty (pointsAwarded ev)) \<longrightarrow>
            (\<exists>e. confirmOne env caller (Some eid) (Some sid) st = (Inl e, st, [])))"
proof (intro conjI impI)
  from runCalls_event [OF assms, of calls] obtain ev' extra where
    r: "kvGetEvent (runCalls st calls) eid = Some ev'" "confirmedStaff ev' = confirmedStaff ev"
       "orEmpty (pointsAwarded ev') = orEmpty (pointsAwarded ev) @ extra"
       "set extra \<subseteq> set (orEmpty (confirmedStaff ev)) - set (orEmpty (pointsAwarded ev))"
       "distinct (orEmpty (confirmedStaff ev)) \<longrightarrow> distinct extra"
    by blast
  have cnt: "\<forall>s\<in>set (orEmpty (pointsAwarded ev)).
               count_list (orEmpty (pointsAwarded ev')) s = count_list (orEmpty (pointsAwarded ev)) s"
  proof
    fix s assume "s \<in> set (orEmpty (pointsAwarded ev))"
    with r(4) have "s \<notin> set extra" by auto
    then have "count_list extra s = 0" by (simp add: count_list_0_iff)
    with r(3) show "count_list (orEmpty (pointsAwarded ev')) s = count_list (orEmpty (pointsAwarded ev)) s"
      by simp
  qed
  have dis: "distinct (orEmpty (confirmedStaff ev)) \<and> distinct (orEmpty (pointsAwarded ev)) \<longrightarrow>
               distinct (orEmpty (pointsAwarded ev'))"
    using r by auto
  show "\<exists>ev'. kvGetEvent (runCalls st calls) eid = Some ev' \<and>
            confirmedStaff ev' = confirmedStaff ev \<and>
            (\<forall>s\<in>set (orEmpty (pointsAwarded ev)).
               count_list (orEmpty (pointsAwarded ev')) s = count_list (orEmpty (pointsAwarded ev)) s) \<and>
            (distinct (orEmpty (confirmedStaff ev)) \<and> distinct (orEmpty (pointsAwarded ev)) \<longrightarrow>
               distinct (orEmpty (pointsAwarded ev')))"
    using r(1,2) cnt dis by blast
next
  assume a: "sid \<in> set (orEmpty (pointsAwarded ev))"
  show "\<exists>e. confirmOne env caller (Some eid) (Some sid) st = (Inl e, st, [])"
    using assms a
    by (auto simp: confirmOne_def Let_def truthy_def orEmpty_def split: sum.splits option.splits)
qed

lemma awarded_ids_not_appended_again_example:
  "kvGetEvent (storeWith awardedWorkshop) ''e1'' = Some awardedWorkshop \<and>
   orEmpty (confirmedStaff awardedWorkshop) = [''A'', ''B''] \<and>
   orEmpty (pointsAwarded awardedWorkshop) = [''A''] \<and>
   (\<exists>ev'. kvGetEvent (runCalls (storeWith awardedWorkshop) sampleCalls) ''e1'' = Some ev' \<and>
      confirmedStaff ev' = confirmedStaff awardedWorkshop \<and>
      count_list (orEmpty (pointsAwarded ev')) ''A'' = 1 \<and>
      distinct (orEmpty (pointsAwarded ev'))) \<and>
   (\<exists>e. confirmOne env0 admin0 (Some ''e1'') (Some ''A'') (storeWith awardedWorkshop) =
      (Inl e, storeWith awardedWorkshop, [])) \<and>
   map_option pointsAwarded (kvGetEvent (runCalls (storeWith awardedWorkshop) sampleCalls) ''e1'') =
     Some (Some [''A'', ''B''])"
proof -
  have h: "kvGetEvent (storeWith awardedWorkshop) ''e1'' = Some awardedWorkshop"
    by (simp add: kvGetEvent_def storeWith_def)
  have c: "orEmpty (confirmedStaff awardedWorkshop) = [''A'', ''B'']"
    by (simp add: sample_defs orEmpty_def)
  have p: "orEmpty (pointsAwarded awardedWorkshop) = [''A'']"
    by (simp add: sample_defs orEmpty_def)
  have v: "map_option pointsAwarded
             (kvGetEvent (runCalls (storeWith awardedWorkshop) sampleCalls) ''e1'') =
           Some (Some [''A'', ''B''])"
    by (simp add: runCalls_def sampleCalls_def award_defs sample_defs store_defs)
  from awarded_ids_not_appended_again [OF h, of sampleCalls "''A''" env0 admin0] c p
  have "(\<exists>ev'. kvGetEvent (runCalls (storeWith awardedWorkshop) sampleCalls) ''e1'' = Some ev' \<and>
      confirmedStaff ev' = confirmedStaff awardedWorkshop \<and>
      count_list (orEmpty (pointsAwarded ev')) ''A'' = 1 \<and>
      distinct (orEmpty (pointsAwarded ev'))) \<and>
   (\<exists>e. confirmOne env0 admin0 (Some ''e1'') (Some ''A'') (storeWith awardedWorkshop) =
      (Inl e, storeWith awardedWorkshop, []))"
    by simp
  with h c p v show ?thesis by blast
qed

text \<open>
  A confirmAll request writes the user records of the ids it awards and no other: the
  record, and with it the points, of an id that is already in \<open>pointsAwarded\<close> stays
  as it is.
\<close>

lemma awardStep_users:
  "sid' \<noteq> sid \<Longrightarrow>
   kvGetUser (fst (awardStep env admin eid ev acc sid)) sid' = kvGetUser (fst acc) sid'"
  by (cases acc)
    (auto simp: awardStep_def Let_def kvGetUser_def kvSetUser_def kvSetAdjustment_def
      update_conv' split: option.splits)

lemma awardLoop_users:
  "sid' \<notin> set ids \<Longrightarrow>
   kvGetUser (fst (foldl (awardStep env admin eid ev) acc ids)) sid' = kvGetUser (fst acc) sid'"
  by (induction ids arbitrary: acc) (simp_all add: awardStep_users)

lemma confirmAll_spares_awarded:
  assumes "kvGetEvent st eid = Some ev" and "sid \<in> set (orEmpty (pointsAwarded ev))"
  shows "kvGetUser (fst (snd (confirmAll env caller (Some eid) st))) sid = kvGetUser st sid"
proof -
  let ?ids = "filter (\<lambda>i. i \<notin> set (orEmpty (pointsAwarded ev))) (orEmpty (confirmedStaff ev))"
  have "sid \<notin> set ?ids" using assms(2) by simp
  then have loop: "kvGetUser (fst (foldl (awardStep env admin eid ev) (st, [], [], [], []) ?ids)) sid =
                   kvGetUser st sid" for admin
    using awardLoop_users [of sid ?ids env admin eid ev "(st, [], [], [], [])"] by simp
  show ?thesis
  proof (cases "requireAdmin st caller")
    case (Inl e)
    then show ?thesis by (simp add: confirmAll_def)
  next
    case (Inr admin)
    show ?thesis
    proof (cases "foldl (awardStep env admin eid ev) (st, [], [], [], []) ?ids")
      case (fields st1 tr staffList adjs levelUps)
      with loop [of admin] have "kvGetUser st1 sid = kvGetUser st sid" by simp
      with Inr fields assms(1) show ?thesis
        by (simp add: confirmAll_def Let_def truthy_def orEmpty_def)
    qed
  qed
qed

lemma confirmAll_spares_awarded_example:
  "map_option userPoints (kvGetUser (storeWith awardedWorkshop) ''A'') = Some 850 \<and>
   map_option userPoints (kvGetUser (storeWith awardedWorkshop) ''B'') = Some 1250 \<and>
   rejection (storeWith awardedWorkshop) (ConfirmAll env0 admin0 (Some ''e1'')) = None \<and>
   map_option userPoints
     (kvGetUser (runCalls (storeWith awardedWorkshop) [ConfirmAll env0 admin0 (Some ''e1'')]) ''A'') =
     Some 850 \<and>
   map_option userPoints
     (kvGetUser (runCalls (storeWith awardedWorkshop) [ConfirmAll env0 admin0 (Some ''e1'')]) ''B'') =
     Some 1400"
  by (simp add: runCalls_def award_defs sample_defs store_defs)

text \<open>
  C2 at an approval list that names A twice. The close handler stores the list as it
  comes; the event then has A twice in \<open>confirmedStaff\<close> and nobody in
  \<open>pointsAwarded\<close>, and A has 850 points. One confirmAll request succeeds, awards the
  150 points of the event to A twice and leaves A twice in \<open>pointsAwarded\<close>. On the same store the first of two confirmOne requests
  for A awards the 150 points once and the second is rejected as already awarded.
\<close>

theorem confirmAll_awards_duplicate_twice:
  "map_option confirmedStaff (kvGetEvent dupStore ''e1'') = Some (Some [''A'', ''A'']) \<and>
   map_option pointsAwarded (kvGetEvent dupStore ''e1'') = Some None \<and>
   map_option userPoints (kvGetUser dupStore ''A'') = Some 850 \<and>
   map_option pointsAwarded
     (kvGetEvent (runCalls dupStore [ConfirmAll env0 admin0 (Some ''e1'')]) ''e1'') =
     Some (Some [''A'', ''A'']) \<and>
   map_option userPoints
     (kvGetUser (runCalls dupStore [ConfirmAll env0 admin0 (Some ''e1'')]) ''A'') = Some 1150 \<and>
   \<not> distinct [''A'', ''A''] \<and>
   map_option pointsAwarded
     (kvGetEvent (runCalls dupStore [ConfirmOne env0 admin0 (Some ''e1'') (Some ''A''),
        ConfirmOne env0 admin0 (Some ''e1'') (Some ''A'')]) ''e1'') = Some (Some [''A'']) \<and>
   map_option userPoints
     (kvGetUser (runCalls dupStore [ConfirmOne env0 admin0 (Some ''e1'') (Some ''A''),
        ConfirmOne env0 admin0 (Some ''e1'') (Some ''A'')]) ''A'') = Some 1000 \<and>
   rejection dupStore (ConfirmAll env0 admin0 (Some ''e1'')) = None \<and>
   rejection dupStore (ConfirmOne env0 admin0 (Some ''e1'') (Some ''A'')) = None \<and>
   rejection (runCalls dupStore [ConfirmOne env0 admin0 (Some ''e1'') (Some ''A'')])
     (ConfirmOne env0 admin0 (Some ''e1'') (Some ''A'')) =
     Some (PreconditionError ''Points already awarded to this staff member'')"
  by (simp add: dupStore_def runCalls_def award_defs close_defs sample_defs store_defs)

section \<open>Awarded staff and the confirmed list\<close>

lemma within_frame [simp]:
  "within (ev\<lparr>signedUpStaff := a\<rparr>) = within ev"
  "within (ev\<lparr>signUpTimestamps := b\<rparr>) = within ev"
  "within (ev\<lparr>status := c\<rparr>) = within ev"
  by (simp_all add: within_def)

lemma update_mem: "(a, b) \<in> set (AList.update k v al) \<Longrightarrow> b = v \<or> (a, b) \<in> set al"
  by (induction al) (auto split: if_splits)

lemma update_has: "(k, v) \<in> set (AList.update k v al)"
  by (induction al) auto

lemma delete_mem: "(a, b) \<in> set (AList.delete k al) \<Longrightarrow> (a, b) \<in> set al"
  by (auto simp: AList.delete_eq)

lemma allWithin_iff: "allWithin st \<longleftrightarrow> (\<forall>(k, ev)\<in>set (events st). within ev)"
  by (auto simp: allWithin_def list_all_iff)

lemma allWithin_get: "allWithin st \<Longrightarrow> kvGetEvent st k = Some ev \<Longrightarrow> within ev"
  by (auto simp: allWithin_iff kvGetEvent_def dest!: map_of_SomeD)

lemma allWithin_kvSetEvent_iff:
  assumes "allWithin st"
  shows "allWithin (kvSetEvent k e st) \<longleftrightarrow> within e"
proof
  assume "allWithin (kvSetEvent k e st)"
  then show "within e"
    using update_has [of k e "events st"] by (auto simp: allWithin_iff kvSetEvent_def)
next
  assume "within e"
  with assms show "allWithin (kvSetEvent k e st)"
    by (auto simp: allWithin_iff kvSetEvent_def dest!: update_mem)
qed

lemma allWithin_kvSetEvent: "allWithin st \<Longrightarrow> within e \<Longrightarrow> allWithin (kvSetEvent k e st)"
  by (simp add: allWithin_kvSetEvent_iff)

lemma allWithin_resave:
  "allWithin st \<Longrightarrow> kvGetEvent st k = Some ev \<Longrightarrow> within e = within ev \<Longrightarrow>
   allWithin (kvSetEvent k' e st)"
  using allWithin_get allWithin_kvSetEvent by blast

lemma allWithin_kvSetUser [simp]: "allWithin (kvSetUser k u st) = allWithin st"
  by (simp add: allWithin_def kvSetUser_def)

lemma allWithin_kvSetAdjustment [simp]: "allWithin (kvSetAdjustment k a st) = allWithin st"
  by (simp add: allWithin_def kvSetAdjustment_def)

lemma allWithin_users [simp]: "allWithin (st\<lparr>users := us\<rparr>) = allWithin st"
  by (simp add: allWithin_def)

lemma allWithin_delete: "allWithin st \<Longrightarrow> allWithin (st\<lparr>events := AList.delete k (events st)\<rparr>)"
  by (auto simp: allWithin_iff dest!: delete_mem)

lemma awardStep_allWithin:
  "allWithin (fst (awardStep env admin eid ev acc sid)) = allWithin (fst acc)"
  by (cases acc) (auto simp: awardStep_def Let_def split: option.splits)

lemma awardLoop_allWithin:
  "allWithin (fst (foldl (awardStep env admin eid ev) acc ids)) = allWithin (fst acc)"
  by (induction ids arbitrary: acc) (simp_all add: awardStep_allWithin)

lemma confirmOne_allWithin:
  assumes "allWithin st"
  shows "allWithin (fst (snd (confirmOne env caller re rs st)))"
proof (cases "\<exists>r tr. confirmOne env caller re rs st = (Inl r, st, tr)")
  case True
  then show ?thesis using assms by auto
next
  case False
  then obtain admin u ev0 where
    ok: "requireAdmin st caller = Inr admin" "truthy re" "truthy rs"
        "kvGetEvent st (orEmpty re) = Some ev0" "kvGetUser st (orEmpty rs) = Some u"
        "orEmpty rs \<notin> set (orEmpty (pointsAwarded ev0))"
        "orEmpty rs \<in> set (orEmpty (confirmedStaff ev0))"
    by (auto simp: confirmOne_def Let_def split: sum.splits option.splits if_splits)
  let ?upd = "ev0\<lparr>pointsAwarded := Some (orEmpty (pointsAwarded ev0) @ [orEmpty rs])\<rparr>"
  have w: "within ?upd"
    using allWithin_get [OF assms ok(4)] ok(7) by (auto simp: within_def orEmpty_def)
  have "fst (snd (confirmOne env caller re rs st)) =
        kvSetAdjustment (fmtNum env (nowMs env))
          (completionRecord env (fmtNum env (nowMs env)) admin (orEmpty re) (orEmpty rs) ev0)
          (kvSetEvent (orEmpty re) ?upd (kvSetUser (orEmpty rs) (awarded st ev0 u) st))"
    using ok by (simp add: confirmOne_def Let_def completionRecord_def)
  with assms w show ?thesis by (simp add: allWithin_kvSetEvent)
qed

lemma confirmAll_allWithin:
  assumes "allWithin st"
  shows "allWithin (fst (snd (confirmAll env caller re st)))"
proof (cases "\<exists>r tr. confirmAll env caller re st = (Inl r, st, tr)")
  case True
  then show ?thesis using assms by auto
next
  case False
  then obtain admin ev0 where
    ok: "requireAdmin st caller = Inr admin" "truthy re"
        "kvGetEvent st (orEmpty re) = Some ev0"
        "filter (\<lambda>i. i \<notin> set (orEmpty (pointsAwarded ev0))) (orEmpty (confirmedStaff ev0)) \<noteq> []"
    by (auto simp: confirmAll_def Let_def split: sum.splits option.splits if_splits)
  let ?todo = "filter (\<lambda>i. i \<notin> set (orEmpty (pointsAwarded ev0))) (orEmpty (confirmedStaff ev0))"
  let ?upd = "ev0\<lparr>pointsAwarded := Some (orEmpty (pointsAwarded ev0) @ ?todo)\<rparr>"
  let ?loop = "foldl (awardStep env admin (orEmpty re) ev0) (st, [], [], [], []) ?todo"
  have l: "allWithin (fst ?loop)"
    using assms awardLoop_allWithin [of env admin "orEmpty re" ev0 "(st, [], [], [], [])" ?todo]
    by simp
  have w: "within ?upd"
    using allWithin_get [OF assms ok(3)] by (auto simp: within_def orEmpty_def)
  have "fst (snd (confirmAll env caller re st)) = kvSetEvent (orEmpty re) ?upd (fst ?loop)"
    using ok by (simp add: confirmAll_def Let_def split: prod.splits)
  with l w show ?thesis by (simp add: allWithin_kvSetEvent)
qed

lemma signup_allWithin:
  "allWithin st \<Longrightarrow> allWithin (fst (snd (signup env caller re st)))"
  by (auto simp: signup_def Let_def split: option.splits
      intro!: allWithin_resave)

lemma cancelSignup_allWithin:
  "allWithin st \<Longrightarrow> allWithin (fst (snd (cancelSignup caller eid st)))"
  by (auto simp: cancelSignup_def Let_def split: option.splits
      intro!: allWithin_resave)

lemma adminSignup_allWithin:
  "allWithin st \<Longrightarrow> allWithin (fst (snd (adminSignup env caller re rs st)))"
  by (auto simp: adminSignup_def Let_def split: sum.splits option.splits
      intro!: allWithin_resave)

lemma cancelEvent_allWithin:
  "allWithin st \<Longrightarrow> allWithin (fst (snd (cancelEvent env caller eid st)))"
  by (auto simp: cancelEvent_def Let_def split: sum.splits option.splits
      intro!: allWithin_resave)

lemma reinstateEvent_allWithin:
  "allWithin st \<Longrightarrow> allWithin (fst (snd (reinstateEvent caller eid st)))"
  by (auto simp: reinstateEvent_def Let_def split: sum.splits option.splits
      intro!: allWithin_resave)

lemma deleteEvent_allWithin:
  "allWithin st \<Longrightarrow> allWithin (fst (snd (deleteEvent caller eid st)))"
  by (auto simp: deleteEvent_def split: sum.splits intro: allWithin_delete)

lemma unsignStep_allWithin:
  "allWithin (fst acc) \<Longrightarrow> within ev \<Longrightarrow> allWithin (fst (unsignStep staffId acc ev))"
  by (simp add: unsignStep_def Let_def allWithin_kvSetEvent)

lemma unsignLoop_allWithin:
  "allWithin (fst acc) \<Longrightarrow> list_all within evs \<Longrightarrow>
   allWithin (fst (foldl (unsignStep staffId) acc evs))"
proof (induction evs arbitrary: acc)
  case Nil
  then show ?case by simp
next
  case (Cons ev evs)
  then have "allWithin (fst (unsignStep staffId acc ev))" and "list_all within evs"
    by (simp_all add: unsignStep_allWithin)
  then show ?case using Cons.IH by simp
qed

lemma deleteStaff_allWithin:
  assumes "allWithin st"
  shows "allWithin (fst (snd (deleteStaff caller staffId st)))"
proof -
  have "allWithin (fst (foldl (unsignStep staffId) (st, []) (map snd (events st))))"
    using assms unsignLoop_allWithin [of "(st, [])" "map snd (events st)" staffId]
    by (simp add: allWithin_def)
  then show ?thesis
    using assms by (auto simp: deleteStaff_def split: sum.splits option.splits prod.splits)
qed

lemma serve_allWithin:
  assumes "keepsLists r" and "allWithin st"
  shows "allWithin (serve st r)"
proof (cases r)
  case (Award c)
  with assms(2) show ?thesis
    by (cases c) (simp_all add: confirmOne_allWithin confirmAll_allWithin)
qed (use assms in \<open>simp_all add: signup_allWithin cancelSignup_allWithin adminSignup_allWithin
      cancelEvent_allWithin reinstateEvent_allWithin deleteEvent_allWithin deleteStaff_allWithin\<close>)

lemma serveAll_allWithin:
  "list_all keepsLists rs \<Longrightarrow> allWithin st \<Longrightarrow> allWithin (foldl serve st rs)"
  by (induction rs arbitrary: st) (simp_all add: serve_allWithin)

text \<open>
  C3, as amended. Let every awarded id of every stored event be a confirmed id of
  that event. This still holds after every sequence of requests to the handlers that
  write events other than close, edit and create: confirmOne, confirmAll, sign-up,
  cancel-sign-up, administrator's sign-up, cancel, reinstate, delete event and delete
  staff. A close that passes the admin and lookup checks replaces \<open>confirmedStaff\<close>
  by the approved list and leaves \<open>pointsAwarded\<close> as it is, so after it the
  inclusion holds exactly when every awarded id is in the approved list. An edit keeps
  \<open>confirmedStaff\<close> and takes \<open>pointsAwarded\<close> from the body when the body has it,
  so after it the inclusion holds exactly when the body has no such list or one
  within the confirmed ids. A created event carries the two lists of its body.
\<close>

theorem awards_within_confirmed:
  assumes "allWithin st"
  shows "(list_all keepsLists rs \<longrightarrow> allWithin (foldl serve st rs)) \<and>
         (requireAdmin st caller = Inr admin \<and> eid \<noteq> [] \<and> kvGetEvent st eid = Some ev \<longrightarrow>
            (\<exists>upd. fst (closeEvent caller (Some eid) (Some approved) st) = Inr upd \<and>
               serve st (Close caller (Some eid) (Some approved)) = kvSetEvent eid upd st \<and>
               pointsAwarded upd = pointsAwarded ev \<and>
               confirmedStaff upd = Some approved \<and>
               (allWithin (serve st (Close caller (Some eid) (Some approved))) \<longleftrightarrow>
                  set (orEmpty (pointsAwarded ev)) \<subseteq> set approved))) \<and>
         (requireAdmin st caller = Inr admin \<and> kvGetEvent st eid = Some ev \<longrightarrow>
            (\<exists>upd. fst (updateEvent env caller eid d st) = Inr upd \<and>
               serve st (Edit env caller eid d) = kvSetEvent eid upd st \<and>
               confirmedStaff upd = confirmedStaff ev \<and>
               pointsAwarded upd = pickOpt (d_pointsAwarded d) (pointsAwarded ev) \<and>
               (allWithin (serve st (Edit env caller eid d)) \<longleftrightarrow>
                  (d_pointsAwarded d = None \<or>
                   set (orEmpty (d_pointsAwarded d)) \<subseteq> set (orEmpty (confirmedStaff ev)))))) \<and>
         (requireAdmin st caller = Inr admin \<longrightarrow>
            (\<exists>new. fst (createEvent env caller newId b st) = Inr new \<and>
               serve st (Create env caller newId b) = kvSetEvent newId new st \<and>
               confirmedStaff new = n_confirmedStaff b \<and>
               pointsAwarded new = n_pointsAwarded b \<and>
               (allWithin (serve st (Create env caller newId b)) \<longleftrightarrow>
                  set (orEmpty (n_pointsAwarded b)) \<subseteq> set (orEmpty (n_confirmedStaff b)))))"
proof (intro conjI impI)
  assume "list_all keepsLists rs"
  then show "allWithin (foldl serve st rs)"
    using assms by (rule serveAll_allWithin)
next
  assume g: "requireAdmin st caller = Inr admin \<and> eid \<noteq> [] \<and> kvGetEvent st eid = Some ev"
  let ?upd = "ev\<lparr>confirmedStaff := Some approved, status := Some ''closed'',
                  hasBeenClosedBefore := Some True\<rparr>"
  have run: "fst (closeEvent caller (Some eid) (Some approved) st) = Inr ?upd \<and>
        fst (snd (closeEvent caller (Some eid) (Some approved) st)) = kvSetEvent eid ?upd st"
    using g by (simp add: closeEvent_def truthy_def orEmpty_def Let_def split: prod.splits)
  have "allWithin (kvSetEvent eid ?upd st) \<longleftrightarrow> set (orEmpty (pointsAwarded ev)) \<subseteq> set approved"
    using allWithin_kvSetEvent_iff [OF assms, of eid ?upd] by (simp add: within_def orEmpty_def)
  with run show "\<exists>upd. fst (closeEvent caller (Some eid) (Some approved) st) = Inr upd \<and>
               serve st (Close caller (Some eid) (Some approved)) = kvSetEvent eid upd st \<and>
               pointsAwarded upd = pointsAwarded ev \<and>
               confirmedStaff upd = Some approved \<and>
               (allWithin (serve st (Close caller (Some eid) (Some approved))) \<longleftrightarrow>
                  set (orEmpty (pointsAwarded ev)) \<subseteq> set approved)"
    by (intro exI [of _ ?upd]) simp
next
  assume g: "requireAdmin st caller = Inr admin \<and> kvGetEvent st eid = Some ev"
  let ?upd = "updatedEventOf eid ev d"
  have run: "fst (updateEvent env caller eid d st) = Inr ?upd \<and>
        fst (snd (updateEvent env caller eid d st)) = kvSetEvent eid ?upd st"
    using g by (simp add: updateEvent_def Let_def)
  have lists: "confirmedStaff ?upd = confirmedStaff ev"
    "pointsAwarded ?upd = pickOpt (d_pointsAwarded d) (pointsAwarded ev)"
    by (simp_all add: updatedEventOf_def)
  have old: "within ev"
    using assms g by (auto intro: allWithin_get)
  have "within ?upd \<longleftrightarrow>
          (d_pointsAwarded d = None \<or>
           set (orEmpty (d_pointsAwarded d)) \<subseteq> set (orEmpty (confirmedStaff ev)))"
    using old lists by (cases "d_pointsAwarded d") (simp_all add: within_def pickOpt_def orEmpty_def)
  then have "allWithin (kvSetEvent eid ?upd st) \<longleftrightarrow>
          (d_pointsAwarded d = None \<or>
           set (orEmpty (d_pointsAwarded d)) \<subseteq> set (orEmpty (confirmedStaff ev)))"
    using allWithin_kvSetEvent_iff [OF assms, of eid ?upd] by simp
  with run lists show "\<exists>upd. fst (updateEvent env caller eid d st) = Inr upd \<and>
               serve st (Edit env caller eid d) = kvSetEvent eid upd st \<and>
               confirmedStaff upd = confirmedStaff ev \<and>
               pointsAwarded upd = pickOpt (d_pointsAwarded d) (pointsAwarded ev) \<and>
               (allWithin (serve st (Edit env caller eid d)) \<longleftrightarrow>
                  (d_pointsAwarded d = None \<or>
                   set (orEmpty (d_pointsAwarded d)) \<subseteq> set (orEmpty (confirmedStaff ev))))"
    by (intro exI [of _ ?upd]) simp
next
  assume g: "requireAdmin st caller = Inr admin"
  let ?new = "createdEventOf env newId b"
  have run: "fst (createEvent env caller newId b st) = Inr ?new \<and>
        fst (snd (createEvent env caller newId b st)) = kvSetEvent newId ?new st"
    using g by (simp add: createEvent_def Let_def)
  have lists: "confirmedStaff ?new = n_confirmedStaff b" "pointsAwarded ?new = n_pointsAwarded b"
    by (simp_all add: createdEventOf_def)
  have "allWithin (kvSetEvent newId ?new st) \<longleftrightarrow>
          set (orEmpty (n_pointsAwarded b)) \<subseteq> set (orEmpty (n_confirmedStaff b))"
    using allWithin_kvSetEvent_iff [OF assms, of newId ?new] lists by (simp add: within_def)
  with run lists show "\<exists>new. fst (createEvent env caller newId b st) = Inr new \<and>
               serve st (Create env caller newId b) = kvSetEvent newId new st \<and>
               confirmedStaff new = n_confirmedStaff b \<and>
               pointsAwarded new = n_pointsAwarded b \<and>
               (allWithin (serve st (Create env caller newId b)) \<longleftrightarrow>
                  set (orEmpty (n_pointsAwarded b)) \<subseteq> set (orEmpty (n_confirmedStaff b)))"
    by (intro exI [of _ ?new]) simp
qed

theorem awards_within_confirmed_witness:
  "allWithin (storeWith awardedWorkshop) \<and>
   list_all keepsLists sampleRequests \<and>
   allWithin (foldl serve (storeWith awardedWorkshop) sampleRequests) \<and>
   map_option pointsAwarded
     (kvGetEvent (foldl serve (storeWith awardedWorkshop) sampleRequests) ''e1'') =
     Some (Some [''A'', ''B'']) \<and>
   requireAdmin (storeWith awardedWorkshop) admin0 = Inr ''adm'' \<and>
   kvGetEvent (storeWith awardedWorkshop) ''e1'' = Some awardedWorkshop \<and>
   allWithin (serve (storeWith awardedWorkshop) (Close admin0 (Some ''e1'') (Some [''A'', ''C'']))) \<and>
   \<not> allWithin (serve (storeWith awardedWorkshop) (Close admin0 (Some ''e1'') (Some [''B'', ''C'']))) \<and>
   allWithin (serve (storeWith awardedWorkshop) (Edit env0 admin0 ''e1'' moveData)) \<and>
   \<not> allWithin (serve (storeWith awardedWorkshop) (Edit env0 admin0 ''e1'' awardData)) \<and>
   allWithin (serve (storeWith awardedWorkshop) (Create env0 admin0 ''e2'' partyData))"
proof -
  have i: "allWithin (storeWith awardedWorkshop)"
    by (simp add: allWithin_def within_def sample_defs orEmpty_def)
  have k: "list_all keepsLists sampleRequests"
    by (simp add: sampleRequests_def)
  have a: "requireAdmin (storeWith awardedWorkshop) admin0 = Inr ''adm''"
    by (simp add: sample_defs store_defs)
  have h: "kvGetEvent (storeWith awardedWorkshop) ''e1'' = Some awardedWorkshop"
    by (simp add: kvGetEvent_def storeWith_def)
  have n: "''e1'' \<noteq> []" by simp
  have p: "orEmpty (pointsAwarded awardedWorkshop) = [''A'']"
    "orEmpty (confirmedStaff awardedWorkshop) = [''A'', ''B'']"
    by (simp_all add: sample_defs orEmpty_def)
  have d: "d_pointsAwarded moveData = None" "d_pointsAwarded awardData = Some [''X'']"
    by (simp_all add: moveData_def awardData_def noData_def)
  have q: "orEmpty (d_pointsAwarded awardData) = [''X'']"
    by (simp add: awardData_def noData_def orEmpty_def)
  have b: "orEmpty (n_pointsAwarded partyData) = [''A'']" "orEmpty (n_confirmedStaff partyData) = [''A'']"
    by (simp_all add: partyData_def orEmpty_def)
  have v: "map_option pointsAwarded
             (kvGetEvent (foldl serve (storeWith awardedWorkshop) sampleRequests) ''e1'') =
           Some (Some [''A'', ''B''])"
    by (simp add: sampleRequests_def award_defs signup_def cancelSignup_def adminSignup_def
        deleteStaff_def unsignStep_def cancelEvent_def reinstateEvent_def deleteEvent_def
        isPast_def sample_defs store_defs)
  note t = awards_within_confirmed [OF i]
  note t1 = t [THEN conjunct1, rule_format]
  note t2 = t [THEN conjunct2, THEN conjunct1, rule_format]
  note t3 = t [THEN conjunct2, THEN conjunct2, THEN conjunct1, rule_format]
  note t4 = t [THEN conjunct2, THEN conjunct2, THEN conjunct2, rule_format]
  have s: "allWithin (foldl serve (storeWith awardedWorkshop) sampleRequests)"
    using k by (rule t1)
  have c1: "allWithin (serve (storeWith awardedWorkshop) (Close admin0 (Some ''e1'') (Some [''A'', ''C''])))"
    using t2 [where caller = admin0 and admin = "''adm''" and eid = "''e1''"
        and ev = awardedWorkshop and approved = "[''A'', ''C'']"] a h n p
    by auto
  have c2: "\<not> allWithin (serve (storeWith awardedWorkshop) (Close admin0 (Some ''e1'') (Some [''B'', ''C''])))"
    using t2 [where caller = admin0 and admin = "''adm''" and eid = "''e1''"
        and ev = awardedWorkshop and approved = "[''B'', ''C'']"] a h n p
    by auto
  have e1: "allWithin (serve (storeWith awardedWorkshop) (Edit env0 admin0 ''e1'' moveData))"
    using t3 [where caller = admin0 and admin = "''adm''" and eid = "''e1''"
        and ev = awardedWorkshop and env = env0 and d = moveData] a h d
    by auto
  have e2: "\<not> allWithin (serve (storeWith awardedWorkshop) (Edit env0 admin0 ''e1'' awardData))"
    using t3 [where caller = admin0 and admin = "''adm''" and eid = "''e1''"
        and ev = awardedWorkshop and env = env0 and d = awardData] a h d p q
    by auto
  have n1: "allWithin (serve (storeWith awardedWorkshop) (Create env0 admin0 ''e2'' partyData))"
    using t4 [where caller = admin0 and admin = "''adm''" and env = env0 and newId = "''e2''"
        and b = partyData] a b
    by auto
  from i k s v a h c1 c2 e1 e2 n1 show ?thesis by blast
qed

text \<open>
  The claim at a re-close and at an edit. A and B were confirmed and A was awarded;
  closing again with B and C approved leaves A in \<open>pointsAwarded\<close> and outside
  \<open>confirmedStaff\<close>, and an edit whose body carries \<open>pointsAwarded\<close> [X] stores X as
  awarded beside the confirmed A and B.
\<close>

theorem reclose_drops_awarded_counterexample:
  "map_option pointsAwarded (kvGetEvent (storeWith awardedWorkshop) ''e1'') = Some (Some [''A'']) \<and>
   map_option confirmedStaff (kvGetEvent (storeWith awardedWorkshop) ''e1'') =
     Some (Some [''A'', ''B'']) \<and>
   map_option pointsAwarded
     (kvGetEvent (fst (snd (closeEvent admin0 (Some ''e1'') (Some [''B'', ''C''])
        (storeWith awardedWorkshop)))) ''e1'') = Some (Some [''A'']) \<and>
   map_option confirmedStaff
     (kvGetEvent (fst (snd (closeEvent admin0 (Some ''e1'') (Some [''B'', ''C''])
        (storeWith awardedWorkshop)))) ''e1'') = Some (Some [''B'', ''C'']) \<and>
   \<not> set [''A''] \<subseteq> set [''B'', ''C''] \<and>
   map_option pointsAwarded
     (kvGetEvent (fst (snd (updateEvent env0 admin0 ''e1'' awardData
        (storeWith awardedWorkshop)))) ''e1'') = Some (Some [''X'']) \<and>
   map_option confirmedStaff
     (kvGetEvent (fst (snd (updateEvent env0 admin0 ''e1'' awardData
        (storeWith awardedWorkshop)))) ''e1'') = Some (Some [''A'', ''B'']) \<and>
   \<not> set [''X''] \<subseteq> set [''A'', ''B'']"
  by (simp add: close_defs updateEvent_def updatedEventOf_def pick_def pickOpt_def
      awardData_def noData_def sample_defs store_defs)

section \<open>Confirming a staff member who was not selected\<close>

text \<open>
  C4. For a stored event and a staff id that is not in its \<open>confirmedStaff\<close>, a
  confirmOne request fails and stores nothing: the store (events, users with their
  points and levels, adjustments) is returned unchanged and no effect is performed.
  When the request passes the earlier checks (the caller is an administrator, both ids
  are given, the staff record exists) the failure is a precondition error: "already
  awarded" if the id is in \<open>pointsAwarded\<close>, "not selected" otherwise.
\<close>

theorem confirmOne_not_selected:
  assumes "kvGetEvent st eid = Some ev"
    and "sid \<notin> set (orEmpty (confirmedStaff ev))"
  shows "(\<exists>e. confirmOne env caller (Some eid) (Some sid) st = (Inl e, st, [])) \<and>
         (requireAdmin st caller = Inr admin \<and> eid \<noteq> [] \<and> sid \<noteq> [] \<and> kvGetUser st sid = Some u \<longrightarrow>
            confirmOne env caller (Some eid) (Some sid) st =
              (Inl (PreconditionError
                     (if sid \<in> set (orEmpty (pointsAwarded ev))
                      then ''Points already awarded to this staff member''
                      else ''Staff member was not selected for this event'')), st, []))"
proof (intro conjI impI)
  show "\<exists>e. confirmOne env caller (Some eid) (Some sid) st = (Inl e, st, [])"
    using assms
    by (auto simp: confirmOne_def Let_def truthy_def orEmpty_def split: sum.splits option.splits)
next
  assume "requireAdmin st caller = Inr admin \<and> eid \<noteq> [] \<and> sid \<noteq> [] \<and> kvGetUser st sid = Some u"
  then show "confirmOne env caller (Some eid) (Some sid) st =
              (Inl (PreconditionError
                     (if sid \<in> set (orEmpty (pointsAwarded ev))
                      then ''Points already awarded to this staff member''
                      else ''Staff member was not selected for this event'')), st, [])"
    using assms
    by (auto simp: confirmOne_def Let_def truthy_def orEmpty_def split: option.splits)
qed

theorem confirmOne_not_selected_witness:
  "kvGetEvent (storeWith awardedWorkshop) ''e1'' = Some awardedWorkshop \<and>
   ''C'' \<notin> set (orEmpty (confirmedStaff awardedWorkshop)) \<and>
   requireAdmin (storeWith awardedWorkshop) admin0 = Inr ''adm'' \<and>
   kvGetUser (storeWith awardedWorkshop) ''C'' = Some staffC \<and>
   confirmOne env0 admin0 (Some ''e1'') (Some ''C'') (storeWith awardedWorkshop) =
     (Inl (PreconditionError ''Staff member was not selected for this event''),
      storeWith awardedWorkshop, [])"
proof -
  have h: "kvGetEvent (storeWith awardedWorkshop) ''e1'' = Some awardedWorkshop"
    by (simp add: kvGetEvent_def storeWith_def)
  have c: "''C'' \<notin> set (orEmpty (confirmedStaff awardedWorkshop))"
    by (simp add: sample_defs orEmpty_def)
  have a: "requireAdmin (storeWith awardedWorkshop) admin0 = Inr ''adm''"
    by (simp add: sample_defs store_defs)
  have u: "kvGetUser (storeWith awardedWorkshop) ''C'' = Some staffC"
    by (simp add: kvGetUser_def storeWith_def)
  have p: "''C'' \<notin> set (orEmpty (pointsAwarded awardedWorkshop))"
    by (simp add: sample_defs orEmpty_def)
  from confirmOne_not_selected [OF h c, of env0 admin0 "''adm''" staffC] a u p
  have "confirmOne env0 admin0 (Some ''e1'') (Some ''C'') (storeWith awardedWorkshop) =
     (Inl (PreconditionError ''Staff member was not selected for this event''),
      storeWith awardedWorkshop, [])"
    by simp
  with h c a u show ?thesis by blast
qed

section \<open>Cancelling an event: notify, then purge\<close>

lemma telegramTo_attempt:
  "chatIdOf u = Some c \<Longrightarrow> c \<noteq> [] \<Longrightarrow> \<not> isBlank c \<Longrightarrow> telegramTo n rid u = [SendTelegram rid c n]"
  by (simp add: telegramTo_def)

lemma telegramTo_no_write: "KvSetEvent k e \<notin> set (telegramTo n rid u)"
  by (auto simp: telegramTo_def split: option.splits)

lemma filter_attempt_telegramTo [simp]: "filter isAttempt (telegramTo n rid u) = telegramTo n rid u"
  by (auto simp: telegramTo_def split: option.splits)

lemma filter_attempt_concat_telegram [simp]:
  "filter isAttempt (concat (map (\<lambda>u. telegramTo n (f u) u) us)) =
   concat (map (\<lambda>u. telegramTo n (f u) u) us)"
  by (induction us) simp_all

lemma filter_attempt_emails [simp]:
  "filter isAttempt (map (\<lambda>u. SendEmail (f u) (g u) n) us) = map (\<lambda>u. SendEmail (f u) (g u) n) us"
  by (induction us) simp_all

lemma purge_empty:
  "signedUpStaff ev = [] \<Longrightarrow> ev\<lparr>status := s, signedUpStaff := []\<rparr> = ev\<lparr>status := s\<rparr>"
  by (cases ev) simp

text \<open>
  C6, as amended. A cancel that passes the admin and lookup checks answers with, and leaves stored, the
  event with status cancelled and nobody signed up. When somebody was signed up, the
  effects are: the save of the cancelled event with the sign-ups still in it, then
  the notifications, then the save of the purged event. Among the notifications, every
  stored user whose id is signed up gets an e-mail attempt if the e-mail API key is
  set, and a Telegram attempt if Telegram is connected and the user has a non-blank
  chat id; no attempt goes to anybody else or over WhatsApp, and nothing is written to
  the store in between. These are all the attempts: an e-mail attempt is made exactly
  to the stored users whose id is signed up, at their address, when the API key is
  set, and a Telegram attempt exactly to those of them with a non-blank chat id, at
  that chat id, when Telegram is connected; so a signed-up id that is the id of no
  stored user gets no attempt on any channel. The answer, the store and the attempts
  are the same whatever the deliveries return.
\<close>

theorem cancelEvent_notifies_then_purges:
  assumes "requireAdmin st caller = Inr admin" and "kvGetEvent st eid = Some ev"
  shows "\<exists>purged mid.
           purged = ev\<lparr>status := Some ''cancelled'', signedUpStaff := []\<rparr> \<and>
           fst (cancelEvent env caller eid st) = Inr purged \<and>
           fst (snd (cancelEvent env caller eid st)) = kvSetEvent eid purged st \<and>
           kvGetEvent (fst (snd (cancelEvent env caller eid st))) eid = Some purged \<and>
           (signedUpStaff ev \<noteq> [] \<longrightarrow>
              snd (snd (cancelEvent env caller eid st)) =
                KvSetEvent eid (ev\<lparr>status := Some ''cancelled''\<rparr>) # mid @ [KvSetEvent eid purged] \<and>
              (\<forall>k e. KvSetEvent k e \<notin> set mid) \<and>
              (\<forall>r a n. SendWhatsApp r a n \<notin> set mid) \<and>
              (\<forall>r a n. SendEmail r a n \<in> set mid \<or> SendTelegram r a n \<in> set mid \<longrightarrow>
                 r \<in> set (signedUpStaff ev) \<and> n = Cancelled) \<and>
              (\<forall>u\<in>set (map snd (users st)). userId u \<in> set (signedUpStaff ev) \<longrightarrow>
                 (truthy (resendApiKey env) \<longrightarrow> SendEmail (userId u) (email u) Cancelled \<in> set mid) \<and>
                 (\<forall>c. telegramConnected st \<and> chatIdOf u = Some c \<and> c \<noteq> [] \<and> \<not> isBlank c \<longrightarrow>
                    SendTelegram (userId u) c Cancelled \<in> set mid)) \<and>
              (\<forall>r a n. SendEmail r a n \<in> set mid \<longleftrightarrow>
                 truthy (resendApiKey env) \<and> n = Cancelled \<and> r \<in> set (signedUpStaff ev) \<and>
                 (\<exists>u\<in>set (map snd (users st)). userId u = r \<and> email u = a)) \<and>
              (\<forall>r c n. SendTelegram r c n \<in> set mid \<longleftrightarrow>
                 telegramConnected st \<and> n = Cancelled \<and> r \<in> set (signedUpStaff ev) \<and>
                 (\<exists>u\<in>set (map snd (users st)).
                    userId u = r \<and> chatIdOf u = Some c \<and> c \<noteq> [] \<and> \<not> isBlank c)) \<and>
              (\<forall>r. r \<in> set (signedUpStaff ev) \<and> r \<notin> userId ` set (map snd (users st)) \<longrightarrow>
                 (\<forall>a n. SendEmail r a n \<notin> set mid \<and> SendTelegram r a n \<notin> set mid \<and>
                        SendWhatsApp r a n \<notin> set mid))) \<and>
           (\<forall>dl. fst (cancelEvent (env\<lparr>delivered := dl\<rparr>) caller eid st) = Inr purged \<and>
                 fst (snd (cancelEvent (env\<lparr>delivered := dl\<rparr>) caller eid st)) = kvSetEvent eid purged st \<and>
                 filter isAttempt (snd (snd (cancelEvent (env\<lparr>delivered := dl\<rparr>) caller eid st))) =
                 filter isAttempt (snd (snd (cancelEvent env caller eid st))))"
proof -
  let ?cancelled = "ev\<lparr>status := Some ''cancelled''\<rparr>"
  let ?purged = "ev\<lparr>status := Some ''cancelled'', signedUpStaff := []\<rparr>"
  let ?staff = "filter (\<lambda>u. userId u \<in> set (signedUpStaff ev)) (map snd (users st))"
  let ?emails = "if truthy (resendApiKey env)
                 then map (\<lambda>u. SendEmail (userId u) (email u) Cancelled) ?staff else []"
  let ?tg = "if telegramConnected st
             then concat (map (\<lambda>u. telegramTo Cancelled (userId u) u) ?staff) else []"
  let ?tglog = "if telegramConnected st
                then [LogCount ''telegram'' (length (filter (delivered env) ?tg))] else []"
  let ?mid = "?emails @ [LogCount ''emails'' (length (filter (delivered env) ?emails))] @ ?tg @ ?tglog"
  have res: "fst (cancelEvent env caller eid st) = Inr ?purged" for env
    using assms by (simp add: cancelEvent_def Let_def purge_empty)
  have sto: "fst (snd (cancelEvent env caller eid st)) = kvSetEvent eid ?purged st" for env
    using assms by (simp add: cancelEvent_def Let_def purge_empty)
  have tr: "signedUpStaff ev \<noteq> [] \<Longrightarrow>
            snd (snd (cancelEvent env caller eid st)) = KvSetEvent eid ?cancelled # ?mid @ [KvSetEvent eid ?purged]"
    using assms by (simp add: cancelEvent_def Let_def)
  have att: "filter isAttempt (snd (snd (cancelEvent env' caller eid st))) =
             (if signedUpStaff ev = [] then []
              else (if truthy (resendApiKey env')
                    then map (\<lambda>u. SendEmail (userId u) (email u) Cancelled) ?staff else []) @ ?tg)" for env'
    using assms by (simp add: cancelEvent_def Let_def)
  have nowrite: "\<forall>k e. KvSetEvent k e \<notin> set ?mid"
    by (auto simp: telegramTo_no_write)
  have nowa: "\<forall>r a n. SendWhatsApp r a n \<notin> set ?mid"
    by (auto dest: telegramTo_sends)
  have only: "\<forall>r a n. SendEmail r a n \<in> set ?mid \<or> SendTelegram r a n \<in> set ?mid \<longrightarrow>
                 r \<in> set (signedUpStaff ev) \<and> n = Cancelled"
    by (auto dest: telegramTo_sends split: if_splits)
  have each: "\<forall>u\<in>set (map snd (users st)). userId u \<in> set (signedUpStaff ev) \<longrightarrow>
                 (truthy (resendApiKey env) \<longrightarrow> SendEmail (userId u) (email u) Cancelled \<in> set ?mid) \<and>
                 (\<forall>c. telegramConnected st \<and> chatIdOf u = Some c \<and> c \<noteq> [] \<and> \<not> isBlank c \<longrightarrow>
                    SendTelegram (userId u) c Cancelled \<in> set ?mid)"
  proof (intro ballI impI conjI allI)
    fix u assume u: "u \<in> set (map snd (users st))" "userId u \<in> set (signedUpStaff ev)"
    then have m: "u \<in> set ?staff" by simp
    { assume "truthy (resendApiKey env)"
      with m show "SendEmail (userId u) (email u) Cancelled \<in> set ?mid" by auto }
    { fix c assume c: "telegramConnected st \<and> chatIdOf u = Some c \<and> c \<noteq> [] \<and> \<not> isBlank c"
      then have "telegramTo Cancelled (userId u) u = [SendTelegram (userId u) c Cancelled]"
        by (simp add: telegramTo_attempt)
      with m have "SendTelegram (userId u) c Cancelled \<in> set (concat (map (\<lambda>u. telegramTo Cancelled (userId u) u) ?staff))"
        by (auto intro!: bexI [of _ u])
      with c show "SendTelegram (userId u) c Cancelled \<in> set ?mid" by simp }
  qed
  have mails: "\<forall>r a n. SendEmail r a n \<in> set ?mid \<longleftrightarrow>
                 truthy (resendApiKey env) \<and> n = Cancelled \<and> r \<in> set (signedUpStaff ev) \<and>
                 (\<exists>u\<in>set (map snd (users st)). userId u = r \<and> email u = a)"
    by (auto dest: telegramTo_sends split: if_splits)
  have tgs: "\<forall>r c n. SendTelegram r c n \<in> set ?mid \<longleftrightarrow>
                 telegramConnected st \<and> n = Cancelled \<and> r \<in> set (signedUpStaff ev) \<and>
                 (\<exists>u\<in>set (map snd (users st)).
                    userId u = r \<and> chatIdOf u = Some c \<and> c \<noteq> [] \<and> \<not> isBlank c)"
  proof (intro allI iffI)
    fix r c n assume "SendTelegram r c n \<in> set ?mid"
    then obtain u where u: "telegramConnected st" "u \<in> set ?staff"
        "SendTelegram r c n \<in> set (telegramTo Cancelled (userId u) u)"
      by (auto split: if_splits)
    from u(3) have "n = Cancelled \<and> r = userId u \<and> chatIdOf u = Some c \<and> c \<noteq> [] \<and> \<not> isBlank c"
      by (auto simp: telegramTo_def split: option.splits if_splits)
    with u(1,2) show "telegramConnected st \<and> n = Cancelled \<and> r \<in> set (signedUpStaff ev) \<and>
                 (\<exists>u\<in>set (map snd (users st)).
                    userId u = r \<and> chatIdOf u = Some c \<and> c \<noteq> [] \<and> \<not> isBlank c)"
      by auto
  next
    fix r c n assume a: "telegramConnected st \<and> n = Cancelled \<and> r \<in> set (signedUpStaff ev) \<and>
                 (\<exists>u\<in>set (map snd (users st)).
                    userId u = r \<and> chatIdOf u = Some c \<and> c \<noteq> [] \<and> \<not> isBlank c)"
    then obtain u where u: "u \<in> set (map snd (users st))" "userId u = r"
        "chatIdOf u = Some c" "c \<noteq> []" "\<not> isBlank c"
      by blast
    from a u(2) have su: "userId u \<in> set (signedUpStaff ev)" by simp
    from a u(3,4,5) have tc: "telegramConnected st \<and> chatIdOf u = Some c \<and> c \<noteq> [] \<and> \<not> isBlank c"
      by simp
    from each [rule_format, OF u(1) su, THEN conjunct2, rule_format, OF tc]
    have "SendTelegram (userId u) c Cancelled \<in> set ?mid" .
    with a u(2) show "SendTelegram r c n \<in> set ?mid" by simp
  qed
  have ghost: "\<forall>r. r \<in> set (signedUpStaff ev) \<and> r \<notin> userId ` set (map snd (users st)) \<longrightarrow>
                 (\<forall>a n. SendEmail r a n \<notin> set ?mid \<and> SendTelegram r a n \<notin> set ?mid \<and>
                        SendWhatsApp r a n \<notin> set ?mid)"
  proof (intro allI impI conjI)
    fix r a n
    assume r: "r \<in> set (signedUpStaff ev) \<and> r \<notin> userId ` set (map snd (users st))"
    show "SendEmail r a n \<notin> set ?mid"
    proof
      assume "SendEmail r a n \<in> set ?mid"
      with mails have "\<exists>u\<in>set (map snd (users st)). userId u = r \<and> email u = a" by blast
      with r show False by blast
    qed
    show "SendTelegram r a n \<notin> set ?mid"
    proof
      assume "SendTelegram r a n \<in> set ?mid"
      with tgs have "\<exists>u\<in>set (map snd (users st)). userId u = r \<and> chatIdOf u = Some a" by blast
      with r show False by blast
    qed
    show "SendWhatsApp r a n \<notin> set ?mid"
      using nowa by blast
  qed
  have indep: "\<forall>dl. fst (cancelEvent (env\<lparr>delivered := dl\<rparr>) caller eid st) = Inr ?purged \<and>
                 fst (snd (cancelEvent (env\<lparr>delivered := dl\<rparr>) caller eid st)) = kvSetEvent eid ?purged st \<and>
                 filter isAttempt (snd (snd (cancelEvent (env\<lparr>delivered := dl\<rparr>) caller eid st))) =
                 filter isAttempt (snd (snd (cancelEvent env caller eid st)))"
    using res sto att by simp
  show ?thesis
    apply (rule exI [of _ ?purged])
    apply (rule exI [of _ ?mid])
    apply (intro conjI impI)
    apply simp
    using res apply blast
    using sto apply blast
    using sto apply simp
    using tr apply blast
    using nowrite apply blast
    using nowa apply blast
    using only apply blast
    using each apply blast
    using mails apply blast
    using tgs apply blast
    using ghost apply blast
    using indep apply blast
    done
qed

theorem cancelEvent_notifies_then_purges_witness:
  "requireAdmin (storeWith workshop) admin0 = Inr ''adm'' \<and>
   kvGetEvent (storeWith workshop) ''e1'' = Some workshop \<and>
   signedUpStaff workshop = [''A'', ''B'', ''C''] \<and>
   staffB \<in> set (map snd (users (storeWith workshop))) \<and>
   truthy (resendApiKey env0) \<and> telegramConnected (storeWith workshop) \<and>
   chatIdOf staffB = Some ''22'' \<and>
   (\<exists>purged mid.
      fst (cancelEvent env0 admin0 ''e1'' (storeWith workshop)) = Inr purged \<and>
      kvGetEvent (fst (snd (cancelEvent env0 admin0 ''e1'' (storeWith workshop)))) ''e1'' = Some purged \<and>
      status purged = Some ''cancelled'' \<and> signedUpStaff purged = [] \<and>
      snd (snd (cancelEvent env0 admin0 ''e1'' (storeWith workshop))) =
        KvSetEvent ''e1'' (workshop\<lparr>status := Some ''cancelled''\<rparr>) # mid @ [KvSetEvent ''e1'' purged] \<and>
      SendEmail ''B'' ''b@company.com'' Cancelled \<in> set mid \<and>
      SendTelegram ''B'' ''22'' Cancelled \<in> set mid) \<and>
   requireAdmin (storeWith ghostWorkshop) admin0 = Inr ''adm'' \<and>
   kvGetEvent (storeWith ghostWorkshop) ''e1'' = Some ghostWorkshop \<and>
   ''G'' \<in> set (signedUpStaff ghostWorkshop) \<and>
   ''G'' \<notin> userId ` set (map snd (users (storeWith ghostWorkshop))) \<and>
   (\<exists>purged mid.
      fst (cancelEvent env0 admin0 ''e1'' (storeWith ghostWorkshop)) = Inr purged \<and>
      signedUpStaff purged = [] \<and>
      snd (snd (cancelEvent env0 admin0 ''e1'' (storeWith ghostWorkshop))) =
        KvSetEvent ''e1'' (ghostWorkshop\<lparr>status := Some ''cancelled''\<rparr>) # mid @ [KvSetEvent ''e1'' purged] \<and>
      (\<forall>a n. SendEmail ''G'' a n \<notin> set mid \<and> SendTelegram ''G'' a n \<notin> set mid \<and>
             SendWhatsApp ''G'' a n \<notin> set mid) \<and>
      SendEmail ''A'' ''a@company.com'' Cancelled \<in> set mid)"
proof -
  have a: "requireAdmin (storeWith workshop) admin0 = Inr ''adm''"
    by (simp add: sample_defs store_defs)
  have h: "kvGetEvent (storeWith workshop) ''e1'' = Some workshop"
    by (simp add: kvGetEvent_def storeWith_def)
  have s: "signedUpStaff workshop = [''A'', ''B'', ''C'']"
    by (simp add: workshop_def)
  have b: "staffB \<in> set (map snd (users (storeWith workshop)))"
    by (simp add: storeWith_def)
  have i: "userId staffB = ''B''" "email staffB = ''b@company.com''"
    by (simp_all add: staffB_def)
  have k: "truthy (resendApiKey env0)"
    by (simp add: env0_def truthy_def)
  have t: "telegramConnected (storeWith workshop)"
    by (simp add: telegramConnected_def storeWith_def)
  have c: "chatIdOf staffB = Some ''22''" "\<not> isBlank ''22''"
    by (simp_all add: chatIdOf_def truthy_def staffB_def isBlank_text spaceAtHead_def whiteSpace_def)
  from s have ne: "signedUpStaff workshop \<noteq> []" by simp
  from cancelEvent_notifies_then_purges [OF a h, of env0] ne obtain purged mid where
    p: "purged = workshop\<lparr>status := Some ''cancelled'', signedUpStaff := []\<rparr>"
       "fst (cancelEvent env0 admin0 ''e1'' (storeWith workshop)) = Inr purged"
       "kvGetEvent (fst (snd (cancelEvent env0 admin0 ''e1'' (storeWith workshop)))) ''e1'' = Some purged"
       "snd (snd (cancelEvent env0 admin0 ''e1'' (storeWith workshop))) =
          KvSetEvent ''e1'' (workshop\<lparr>status := Some ''cancelled''\<rparr>) # mid @ [KvSetEvent ''e1'' purged]"
       "\<forall>u\<in>set (map snd (users (storeWith workshop))). userId u \<in> set (signedUpStaff workshop) \<longrightarrow>
          (truthy (resendApiKey env0) \<longrightarrow> SendEmail (userId u) (email u) Cancelled \<in> set mid) \<and>
          (\<forall>c. telegramConnected (storeWith workshop) \<and> chatIdOf u = Some c \<and> c \<noteq> [] \<and> \<not> isBlank c \<longrightarrow>
             SendTelegram (userId u) c Cancelled \<in> set mid)"
    apply (elim exE conjE)
    apply (erule impE, assumption)
    apply (elim conjE)
    apply (rule that; assumption)
    done
  from p(5) b s i k t c have
    m: "SendEmail ''B'' ''b@company.com'' Cancelled \<in> set mid"
       "SendTelegram ''B'' ''22'' Cancelled \<in> set mid"
    by auto
  from p(1) have q: "status purged = Some ''cancelled''" "signedUpStaff purged = []"
    by simp_all
  have first: "\<exists>purged mid.
      fst (cancelEvent env0 admin0 ''e1'' (storeWith workshop)) = Inr purged \<and>
      kvGetEvent (fst (snd (cancelEvent env0 admin0 ''e1'' (storeWith workshop)))) ''e1'' = Some purged \<and>
      status purged = Some ''cancelled'' \<and> signedUpStaff purged = [] \<and>
      snd (snd (cancelEvent env0 admin0 ''e1'' (storeWith workshop))) =
        KvSetEvent ''e1'' (workshop\<lparr>status := Some ''cancelled''\<rparr>) # mid @ [KvSetEvent ''e1'' purged] \<and>
      SendEmail ''B'' ''b@company.com'' Cancelled \<in> set mid \<and>
      SendTelegram ''B'' ''22'' Cancelled \<in> set mid"
    using p(2,3,4) m q by blast
  have ga: "requireAdmin (storeWith ghostWorkshop) admin0 = Inr ''adm''"
    by (simp add: sample_defs store_defs)
  have gh: "kvGetEvent (storeWith ghostWorkshop) ''e1'' = Some ghostWorkshop"
    by (simp add: kvGetEvent_def storeWith_def)
  have gs: "signedUpStaff ghostWorkshop = [''A'', ''G'']"
    by (simp add: ghostWorkshop_def workshop_def)
  have gn: "''G'' \<notin> userId ` set (map snd (users (storeWith ghostWorkshop)))"
    by (simp add: storeWith_def sample_defs)
  have gu: "staffA \<in> set (map snd (users (storeWith ghostWorkshop)))"
      "userId staffA = ''A''" "email staffA = ''a@company.com''"
    by (simp_all add: storeWith_def staffA_def)
  from gs have gne: "signedUpStaff ghostWorkshop \<noteq> []" by simp
  from cancelEvent_notifies_then_purges [OF ga gh, of env0] gne obtain gpurged gmid where
    g: "gpurged = ghostWorkshop\<lparr>status := Some ''cancelled'', signedUpStaff := []\<rparr>"
       "fst (cancelEvent env0 admin0 ''e1'' (storeWith ghostWorkshop)) = Inr gpurged"
       "snd (snd (cancelEvent env0 admin0 ''e1'' (storeWith ghostWorkshop))) =
          KvSetEvent ''e1'' (ghostWorkshop\<lparr>status := Some ''cancelled''\<rparr>) # gmid @ [KvSetEvent ''e1'' gpurged]"
       "\<forall>r a n. SendEmail r a n \<in> set gmid \<longleftrightarrow>
          truthy (resendApiKey env0) \<and> n = Cancelled \<and> r \<in> set (signedUpStaff ghostWorkshop) \<and>
          (\<exists>u\<in>set (map snd (users (storeWith ghostWorkshop))). userId u = r \<and> email u = a)"
       "\<forall>r. r \<in> set (signedUpStaff ghostWorkshop) \<and>
            r \<notin> userId ` set (map snd (users (storeWith ghostWorkshop))) \<longrightarrow>
          (\<forall>a n. SendEmail r a n \<notin> set gmid \<and> SendTelegram r a n \<notin> set gmid \<and>
                 SendWhatsApp r a n \<notin> set gmid)"
    apply (elim exE conjE)
    apply (erule impE, assumption)
    apply (elim conjE)
    apply (rule that; assumption)
    done
  from g(5) gs gn have
    gg: "\<forall>a n. SendEmail ''G'' a n \<notin> set gmid \<and> SendTelegram ''G'' a n \<notin> set gmid \<and>
               SendWhatsApp ''G'' a n \<notin> set gmid"
    by simp
  from gs have ga1: "''A'' \<in> set (signedUpStaff ghostWorkshop)" by simp
  from gu have ga2: "\<exists>u\<in>set (map snd (users (storeWith ghostWorkshop))).
      userId u = ''A'' \<and> email u = ''a@company.com''"
    by blast
  from g(4) ga1 ga2 k have gm: "SendEmail ''A'' ''a@company.com'' Cancelled \<in> set gmid"
    by blast
  from g(1) have gq: "signedUpStaff gpurged = []"
    by simp
  have second: "\<exists>purged mid.
      fst (cancelEvent env0 admin0 ''e1'' (storeWith ghostWorkshop)) = Inr purged \<and>
      signedUpStaff purged = [] \<and>
      snd (snd (cancelEvent env0 admin0 ''e1'' (storeWith ghostWorkshop))) =
        KvSetEvent ''e1'' (ghostWorkshop\<lparr>status := Some ''cancelled''\<rparr>) # mid @ [KvSetEvent ''e1'' purged] \<and>
      (\<forall>a n. SendEmail ''G'' a n \<notin> set mid \<and> SendTelegram ''G'' a n \<notin> set mid \<and>
             SendWhatsApp ''G'' a n \<notin> set mid) \<and>
      SendEmail ''A'' ''a@company.com'' Cancelled \<in> set mid"
    using g(2,3) gq gg gm by blast
  from gs have gi: "''G'' \<in> set (signedUpStaff ghostWorkshop)" by simp
  from a h s b k t c(1) first ga gh gi gn second show ?thesis by blast
qed

text \<open>
  The claim at a workshop with A and G signed up, e-mail, Telegram and WhatsApp all
  configured: G has no user record and gets no attempt on any channel, and A, whom a
  WhatsApp message would reach, gets an e-mail and a Telegram attempt but no WhatsApp
  attempt; the sign-ups are purged all the same.
\<close>

theorem cancelEvent_skips_channels_counterexample:
  "signedUpStaff ghostWorkshop = [''A'', ''G''] \<and>
   kvGetUser (storeWith ghostWorkshop) ''G'' = None \<and>
   map_option phone (kvGetUser (storeWith ghostWorkshop) ''A'') = Some (Some ''+15550001'') \<and>
   newEventWhatsApp (storeWith ghostWorkshop) [staffA] = [SendWhatsApp ''A'' ''+15550001'' NewEvent] \<and>
   filter isAttempt (snd (snd (cancelEvent env0 admin0 ''e1'' (storeWith ghostWorkshop)))) =
     [SendEmail ''A'' ''a@company.com'' Cancelled, SendTelegram ''A'' ''11'' Cancelled] \<and>
   map_option signedUpStaff
     (kvGetEvent (fst (snd (cancelEvent env0 admin0 ''e1'' (storeWith ghostWorkshop)))) ''e1'') =
     Some []"
  by (simp add: cancelEvent_def ghostWorkshop_def telegramConnected_def telegramTo_def
      newEventWhatsApp_def whatsAppConnected_def chatIdOf_def isBlank_text spaceAtHead_def whiteSpace_def Let_def
      sample_defs store_defs)

section \<open>Signing up: what is rejected\<close>

text \<open>
  A sign-up by a caller who is already signed up, or for an event whose start lies in
  the past, is rejected with a 400 precondition error and stores nothing.
\<close>

lemma signup_rejects_repeat_and_past:
  assumes "kvGetEvent st eid = Some ev" and "eid \<noteq> []"
    and "uid \<in> set (signedUpStaff ev) \<or> isPast env ev"
  shows "\<exists>m. signup env (Some uid) (Some eid) st = (Inl (PreconditionError m), st, []) \<and>
             statusCode (PreconditionError m) = 400"
  using assms by (auto simp: signup_def)

text \<open>
  C7 at a cancelled event. The workshop is stored as cancelled, its start is not in
  the past and A is not signed up: the staff sign-up of A succeeds and stores A in
  \<open>signedUpStaff\<close> of the cancelled event, while the administrator's sign-up of A for
  the same event is rejected with the precondition error for cancelled events.
\<close>

theorem signup_accepts_cancelled_event:
  "map_option status (kvGetEvent (storeWith cancelledWorkshop) ''e1'') = Some (Some ''cancelled'') \<and>
   \<not> isPast env0 cancelledWorkshop \<and>
   ''A'' \<notin> set (signedUpStaff cancelledWorkshop) \<and>
   fst (signup env0 (Some ''A'') (Some ''e1'') (storeWith cancelledWorkshop)) =
     Inr (cancelledWorkshop \<lparr> signedUpStaff := [''A''],
            signUpTimestamps := Some [(''A'', ''2025-11-01T00:00:00.000Z'')] \<rparr>) \<and>
   map_option signedUpStaff
     (kvGetEvent (fst (snd (signup env0 (Some ''A'') (Some ''e1'') (storeWith cancelledWorkshop)))) ''e1'') =
     Some [''A''] \<and>
   map_option status
     (kvGetEvent (fst (snd (signup env0 (Some ''A'') (Some ''e1'') (storeWith cancelledWorkshop)))) ''e1'') =
     Some (Some ''cancelled'') \<and>
   adminSignup env0 admin0 (Some ''e1'') (Some [''A'']) (storeWith cancelledWorkshop) =
     (Inl (PreconditionError ''Cannot sign up staff for cancelled events''),
      storeWith cancelledWorkshop, [])"
  by (simp add: signup_def adminSignup_def isPast_def cancelledWorkshop_def Let_def
      sample_defs store_defs)

section \<open>Editing an event: who is told\<close>

lemma length_lineIf: "length (lineIf b l) = (if b then 1 else 0)"
  by (simp add: lineIf_def)

lemma lineIf_Nil: "lineIf b l = [] \<longleftrightarrow> \<not> b"
  by (simp add: lineIf_def)

lemma fieldChanges_Nil:
  "fieldChanges env old new = [] \<longleftrightarrow>
     name old = name new \<and> date old = date new \<and> time old = time new \<and>
     location old = location new \<and> duration old = duration new \<and> points old = points new \<and>
     requiredLevel old = requiredLevel new \<and> description old = description new \<and>
     eventNotes old = eventNotes new"
  by (simp add: fieldChanges_def lineIf_Nil)

lemma length_fieldChanges:
  "length (fieldChanges env old new) =
     length (filter (\<lambda>b. b)
       [name old \<noteq> name new, date old \<noteq> date new, time old \<noteq> time new,
        location old \<noteq> location new, duration old \<noteq> duration new, points old \<noteq> points new,
        requiredLevel old \<noteq> requiredLevel new, description old \<noteq> description new,
        eventNotes old \<noteq> eventNotes new])"
  by (simp add: fieldChanges_def length_lineIf)

lemma fieldChanges_text_blind:
  "(a \<noteq> b) = (description old \<noteq> description new) \<Longrightarrow>
   (a' \<noteq> b') = (eventNotes old \<noteq> eventNotes new) \<Longrightarrow>
   fieldChanges env (old\<lparr>description := a, eventNotes := a'\<rparr>)
     (new\<lparr>description := b, eventNotes := b'\<rparr>) = fieldChanges env old new"
  by (simp add: fieldChanges_def)

lemma updateNotifications_same_selection:
  assumes "confirmedStaff upd = confirmedStaff ev"
  shows "updateNotifications env st ev upd =
     (if fieldChanges env ev upd \<noteq> [] \<and> telegramConnected st
      then telegramNotify st (Updated (fieldChanges env ev upd))
             (staffToNotify (eventStatusOf upd) upd)
      else [])"
  using assms by (auto simp: updateNotifications_def Let_def staffToNotify_def)

text \<open>
  C8, as amended. An edit that passes the admin and lookup checks saves the merged
  event, whose status is the body's when the body has one and the stored one
  otherwise. With \<open>changes\<close> the field diff of the nine compared fields: it is empty
  exactly when none of them differs, has one line per differing field, carries the
  fixed lines "Description updated" and "Notes updated" for those two fields and
  depends on their texts only through whether they differ. If \<open>changes\<close> is empty no
  message is sent. Otherwise the recipients are \<open>signedUpStaff\<close> when the status of
  the saved event is open, and also when the saved event has no status or the empty
  one; they are \<open>confirmedStaff\<close> when it is closed, and nobody for every other
  status. The "event updated" messages go over Telegram, when it is connected, to
  these recipients and to nobody else.
\<close>

theorem updateEvent_notifies_by_status:
  assumes "requireAdmin st caller = Inr admin" and "kvGetEvent st eid = Some ev"
  shows "\<exists>upd changes recipients msgs.
           upd = updatedEventOf eid ev d \<and> changes = fieldChanges env ev upd \<and>
           updateEvent env caller eid d st =
             (Inr upd, kvSetEvent eid upd st, KvSetEvent eid upd # msgs) \<and>
           status upd = (case d_status d of None \<Rightarrow> status ev | Some s \<Rightarrow> Some s) \<and>
           map_option status (kvGetEvent (fst (snd (updateEvent env caller eid d st))) eid) =
             Some (status upd) \<and>
           (changes = [] \<longleftrightarrow>
              name ev = name upd \<and> date ev = date upd \<and> time ev = time upd \<and>
              location ev = location upd \<and> duration ev = duration upd \<and>
              points ev = points upd \<and> requiredLevel ev = requiredLevel upd \<and>
              description ev = description upd \<and> eventNotes ev = eventNotes upd) \<and>
           length changes =
             length (filter (\<lambda>b. b)
               [name ev \<noteq> name upd, date ev \<noteq> date upd, time ev \<noteq> time upd,
                location ev \<noteq> location upd, duration ev \<noteq> duration upd,
                points ev \<noteq> points upd, requiredLevel ev \<noteq> requiredLevel upd,
                description ev \<noteq> description upd, eventNotes ev \<noteq> eventNotes upd]) \<and>
           (description ev \<noteq> description upd \<longrightarrow> ''Description updated'' \<in> set changes) \<and>
           (eventNotes ev \<noteq> eventNotes upd \<longrightarrow> ''Notes updated'' \<in> set changes) \<and>
           (\<forall>a b a' b'. (a \<noteq> b) = (description ev \<noteq> description upd) \<and>
                        (a' \<noteq> b') = (eventNotes ev \<noteq> eventNotes upd) \<longrightarrow>
              fieldChanges env (ev\<lparr>description := a, eventNotes := a'\<rparr>)
                (upd\<lparr>description := b, eventNotes := b'\<rparr>) = changes) \<and>
           (changes = [] \<longrightarrow> msgs = []) \<and>
           recipients =
             (case status upd of
                None \<Rightarrow> signedUpStaff ev
              | Some s \<Rightarrow>
                  if s = ''open'' \<or> s = [] then signedUpStaff ev
                  else if s = ''closed'' then orEmpty (confirmedStaff ev)
                  else []) \<and>
           (changes \<noteq> [] \<longrightarrow>
              msgs = (if telegramConnected st
                      then telegramNotify st (Updated changes) recipients else [])) \<and>
           (\<forall>x c k. SendTelegram x c k \<in> set msgs \<longrightarrow> x \<in> set recipients \<and> k = Updated changes)"
proof -
  let ?upd = "updatedEventOf eid ev d"
  let ?changes = "fieldChanges env ev ?upd"
  let ?recipients = "staffToNotify (eventStatusOf ?upd) ?upd"
  let ?msgs = "if ?changes \<noteq> [] \<and> telegramConnected st
               then telegramNotify st (Updated ?changes) ?recipients else []"
  have keep: "confirmedStaff ?upd = confirmedStaff ev" "signedUpStaff ?upd = signedUpStaff ev"
    by (simp_all add: updatedEventOf_def)
  have run: "updateEvent env caller eid d st =
               (Inr ?upd, kvSetEvent eid ?upd st, KvSetEvent eid ?upd # ?msgs)"
    using assms updateNotifications_same_selection [OF keep(1), of env "kvSetEvent eid ?upd st"]
    by (simp add: updateEvent_def Let_def)
  have rec: "?recipients =
             (case status ?upd of
                None \<Rightarrow> signedUpStaff ev
              | Some s \<Rightarrow>
                  if s = ''open'' \<or> s = [] then signedUpStaff ev
                  else if s = ''closed'' then orEmpty (confirmedStaff ev)
                  else [])"
    using keep by (simp add: staffToNotify_def eventStatusOf_def split: option.splits)
  have stat: "status ?upd = (case d_status d of None \<Rightarrow> status ev | Some s \<Rightarrow> Some s)"
    by (simp add: updatedEventOf_def pickOpt_def split: option.splits)
  have stored: "map_option status (kvGetEvent (fst (snd (updateEvent env caller eid d st))) eid) =
             Some (status ?upd)"
    using run by simp
  have d1: "description ev \<noteq> description ?upd \<longrightarrow> ''Description updated'' \<in> set ?changes"
    by (simp add: fieldChanges_def lineIf_def)
  have d2: "eventNotes ev \<noteq> eventNotes ?upd \<longrightarrow> ''Notes updated'' \<in> set ?changes"
    by (simp add: fieldChanges_def lineIf_def)
  have blind: "\<forall>a b a' b'. (a \<noteq> b) = (description ev \<noteq> description ?upd) \<and>
                        (a' \<noteq> b') = (eventNotes ev \<noteq> eventNotes ?upd) \<longrightarrow>
              fieldChanges env (ev\<lparr>description := a, eventNotes := a'\<rparr>)
                (?upd\<lparr>description := b, eventNotes := b'\<rparr>) = ?changes"
    using fieldChanges_text_blind by blast
  have only: "\<forall>x c k. SendTelegram x c k \<in> set ?msgs \<longrightarrow>
                x \<in> set ?recipients \<and> k = Updated ?changes"
    by (auto dest: telegramNotify_sends)
  have quiet: "?changes = [] \<longrightarrow> ?msgs = []" by simp
  have loud: "?changes \<noteq> [] \<longrightarrow>
              ?msgs = (if telegramConnected st
                       then telegramNotify st (Updated ?changes) ?recipients else [])"
    by simp
  show ?thesis
    apply (rule exI [of _ ?upd])
    apply (rule exI [of _ ?changes])
    apply (rule exI [of _ ?recipients])
    apply (rule exI [of _ ?msgs])
    apply (intro conjI)
    using run apply simp
    using run apply simp
    using run apply simp
    using stat apply blast
    using stored apply blast
    using fieldChanges_Nil [of env ev ?upd] apply blast
    using length_fieldChanges [of env ev ?upd] apply blast
    using d1 apply blast
    using d2 apply blast
    using blind apply blast
    using quiet apply blast
    using rec apply blast
    using loud apply blast
    using only apply blast
    done
qed

theorem updateEvent_notifies_by_status_witness:
  "requireAdmin (storeWith workshop) admin0 = Inr ''adm'' \<and>
   kvGetEvent (storeWith workshop) ''e1'' = Some workshop \<and>
   status workshop = Some ''open'' \<and>
   (\<exists>upd line.
      line = ''Location: '' @ quoted ''Room 101'' @ '' '' @ arrow @ '' '' @ quoted ''Hall A'' \<and>
      fieldChanges env0 workshop upd = [line] \<and>
      updateEvent env0 admin0 ''e1'' relocateData (storeWith workshop) =
        (Inr upd, kvSetEvent ''e1'' upd (storeWith workshop),
         [KvSetEvent ''e1'' upd,
          SendTelegram ''A'' ''11'' (Updated [line]),
          SendTelegram ''B'' ''22'' (Updated [line]),
          SendTelegram ''C'' ''33'' (Updated [line])])) \<and>
   (\<exists>upd. fieldChanges env0 workshop upd = [] \<and>
      updateEvent env0 admin0 ''e1'' noData (storeWith workshop) =
        (Inr upd, kvSetEvent ''e1'' upd (storeWith workshop), [KvSetEvent ''e1'' upd])) \<and>
   requireAdmin (storeWith closedWorkshop) admin0 = Inr ''adm'' \<and>
   kvGetEvent (storeWith closedWorkshop) ''e1'' = Some closedWorkshop \<and>
   status closedWorkshop = Some ''closed'' \<and>
   signedUpStaff closedWorkshop = [''A'', ''B'', ''C''] \<and>
   confirmedStaff closedWorkshop = Some [''A'', ''B''] \<and>
   (\<exists>upd line.
      line = ''Location: '' @ quoted ''Room 101'' @ '' '' @ arrow @ '' '' @ quoted ''Hall A'' \<and>
      status upd = Some ''closed'' \<and>
      updateEvent env0 admin0 ''e1'' relocateData (storeWith closedWorkshop) =
        (Inr upd, kvSetEvent ''e1'' upd (storeWith closedWorkshop),
         [KvSetEvent ''e1'' upd,
          SendTelegram ''A'' ''11'' (Updated [line]),
          SendTelegram ''B'' ''22'' (Updated [line])])) \<and>
   requireAdmin (storeWith reinstatedWorkshop) admin0 = Inr ''adm'' \<and>
   kvGetEvent (storeWith reinstatedWorkshop) ''e1'' = Some reinstatedWorkshop \<and>
   status reinstatedWorkshop = Some ''upcoming'' \<and>
   signedUpStaff reinstatedWorkshop = [''A'', ''B'', ''C''] \<and>
   (\<exists>upd. length (fieldChanges env0 reinstatedWorkshop upd) = 1 \<and>
      status upd = Some ''upcoming'' \<and>
      updateEvent env0 admin0 ''e1'' relocateData (storeWith reinstatedWorkshop) =
        (Inr upd, kvSetEvent ''e1'' upd (storeWith reinstatedWorkshop), [KvSetEvent ''e1'' upd]))"
proof -
  let ?line = "''Location: '' @ quoted ''Room 101'' @ '' '' @ arrow @ '' '' @ quoted ''Hall A''"
  have a: "requireAdmin (storeWith workshop) admin0 = Inr ''adm''"
    by (simp add: sample_defs store_defs)
  have h: "kvGetEvent (storeWith workshop) ''e1'' = Some workshop"
    by (simp add: kvGetEvent_def storeWith_def)
  have o: "status workshop = Some ''open''"
    by (simp add: workshop_def)
  have t: "telegramConnected (storeWith ev)" for ev
    by (simp add: telegramConnected_def storeWith_def)
  have c1: "fieldChanges env0 workshop (updatedEventOf ''e1'' workshop relocateData) = [?line]"
    by (simp add: fieldChanges_def lineIf_def updatedEventOf_def pick_def pickOpt_def
        relocateData_def noData_def workshop_def)
  have s1: "d_status relocateData = None" "d_status noData = None"
    by (simp_all add: relocateData_def noData_def)
  have r1: "signedUpStaff workshop = [''A'', ''B'', ''C'']"
    by (simp add: workshop_def)
  have n1: "telegramNotify (storeWith ev) (Updated [?line]) [''A'', ''B'', ''C''] =
         [SendTelegram ''A'' ''11'' (Updated [?line]),
          SendTelegram ''B'' ''22'' (Updated [?line]),
          SendTelegram ''C'' ''33'' (Updated [?line])]" for ev
    by (simp add: telegramNotify_def telegramTo_def chatIdOf_def truthy_def isBlank_text
        spaceAtHead_def whiteSpace_def kvGetUser_def storeWith_def staffA_def staffB_def staffC_def)
  have n2: "telegramNotify (storeWith ev) (Updated [?line]) [''A'', ''B''] =
         [SendTelegram ''A'' ''11'' (Updated [?line]),
          SendTelegram ''B'' ''22'' (Updated [?line])]" for ev
    by (simp add: telegramNotify_def telegramTo_def chatIdOf_def truthy_def isBlank_text
        spaceAtHead_def whiteSpace_def kvGetUser_def storeWith_def staffA_def staffB_def staffC_def)
  have c2: "fieldChanges env0 workshop (updatedEventOf ''e1'' workshop noData) = []"
    by (simp add: fieldChanges_def lineIf_def updatedEventOf_def pick_def pickOpt_def
        noData_def)
  from updateEvent_notifies_by_status [OF a h, where env = env0 and d = relocateData] c1 s1 o r1 n1 t
  have w1: "\<exists>upd line.
      line = ?line \<and>
      fieldChanges env0 workshop upd = [line] \<and>
      updateEvent env0 admin0 ''e1'' relocateData (storeWith workshop) =
        (Inr upd, kvSetEvent ''e1'' upd (storeWith workshop),
         [KvSetEvent ''e1'' upd,
          SendTelegram ''A'' ''11'' (Updated [line]),
          SendTelegram ''B'' ''22'' (Updated [line]),
          SendTelegram ''C'' ''33'' (Updated [line])])"
    by auto
  from updateEvent_notifies_by_status [OF a h, where env = env0 and d = noData] c2
  have w2: "\<exists>upd. fieldChanges env0 workshop upd = [] \<and>
      updateEvent env0 admin0 ''e1'' noData (storeWith workshop) =
        (Inr upd, kvSetEvent ''e1'' upd (storeWith workshop), [KvSetEvent ''e1'' upd])"
    by auto
  have ca: "requireAdmin (storeWith closedWorkshop) admin0 = Inr ''adm''"
    by (simp add: sample_defs store_defs)
  have ch: "kvGetEvent (storeWith closedWorkshop) ''e1'' = Some closedWorkshop"
    by (simp add: kvGetEvent_def storeWith_def)
  have co: "status closedWorkshop = Some ''closed''"
      "signedUpStaff closedWorkshop = [''A'', ''B'', ''C'']"
      "confirmedStaff closedWorkshop = Some [''A'', ''B'']"
    by (simp_all add: closedWorkshop_def workshop_def)
  have cc: "fieldChanges env0 closedWorkshop (updatedEventOf ''e1'' closedWorkshop relocateData) = [?line]"
    by (simp add: fieldChanges_def lineIf_def updatedEventOf_def pick_def pickOpt_def
        relocateData_def noData_def closedWorkshop_def workshop_def)
  from updateEvent_notifies_by_status [OF ca ch, where env = env0 and d = relocateData] cc s1 co n2 t
  have w3: "\<exists>upd line.
      line = ?line \<and>
      status upd = Some ''closed'' \<and>
      updateEvent env0 admin0 ''e1'' relocateData (storeWith closedWorkshop) =
        (Inr upd, kvSetEvent ''e1'' upd (storeWith closedWorkshop),
         [KvSetEvent ''e1'' upd,
          SendTelegram ''A'' ''11'' (Updated [line]),
          SendTelegram ''B'' ''22'' (Updated [line])])"
    by (auto simp: orEmpty_def)
  have ra: "requireAdmin (storeWith reinstatedWorkshop) admin0 = Inr ''adm''"
    by (simp add: sample_defs store_defs)
  have rh: "kvGetEvent (storeWith reinstatedWorkshop) ''e1'' = Some reinstatedWorkshop"
    by (simp add: kvGetEvent_def storeWith_def)
  have ro: "status reinstatedWorkshop = Some ''upcoming''"
      "signedUpStaff reinstatedWorkshop = [''A'', ''B'', ''C'']"
    by (simp_all add: reinstatedWorkshop_def workshop_def)
  have rc: "fieldChanges env0 reinstatedWorkshop (updatedEventOf ''e1'' reinstatedWorkshop relocateData) =
      [?line]"
    by (simp add: fieldChanges_def lineIf_def updatedEventOf_def pick_def pickOpt_def
        relocateData_def noData_def reinstatedWorkshop_def workshop_def)
  from updateEvent_notifies_by_status [OF ra rh, where env = env0 and d = relocateData] rc s1 ro t
  have w4: "\<exists>upd. length (fieldChanges env0 reinstatedWorkshop upd) = 1 \<and>
      status upd = Some ''upcoming'' \<and>
      updateEvent env0 admin0 ''e1'' relocateData (storeWith reinstatedWorkshop) =
        (Inr upd, kvSetEvent ''e1'' upd (storeWith reinstatedWorkshop), [KvSetEvent ''e1'' upd])"
    by auto
  from a h o w1 w2 ca ch co w3 ra rh ro w4 show ?thesis by blast
qed

text \<open>
  The claim at an event stored without a status, as the seed events are. A, B and C
  are signed up; an edit that moves the event leaves it without a status, which is
  neither open nor closed, and the "event updated" message goes to A, B and C.
\<close>

theorem updateEvent_no_status_counterexample:
  "map_option status (kvGetEvent (storeWith seedWorkshop) ''e1'') = Some None \<and>
   map_option signedUpStaff (kvGetEvent (storeWith seedWorkshop) ''e1'') =
     Some [''A'', ''B'', ''C''] \<and>
   map_option status
     (kvGetEvent (fst (snd (updateEvent env0 admin0 ''e1'' relocateData (storeWith seedWorkshop))))
        ''e1'') = Some None \<and>
   filter isAttempt (snd (snd (updateEvent env0 admin0 ''e1'' relocateData (storeWith seedWorkshop)))) =
     [SendTelegram ''A'' ''11''
        (Updated [''Location: '' @ quoted ''Room 101'' @ '' '' @ arrow @ '' '' @ quoted ''Hall A'']),
      SendTelegram ''B'' ''22''
        (Updated [''Location: '' @ quoted ''Room 101'' @ '' '' @ arrow @ '' '' @ quoted ''Hall A'']),
      SendTelegram ''C'' ''33''
        (Updated [''Location: '' @ quoted ''Room 101'' @ '' '' @ arrow @ '' '' @ quoted ''Hall A''])]"
  by (simp add: updateEvent_def updateNotifications_def updatedEventOf_def fieldChanges_def
      lineIf_def staffToNotify_def eventStatusOf_def pick_def pickOpt_def relocateData_def
      noData_def seedWorkshop_def telegramConnected_def telegramNotify_def telegramTo_def
      chatIdOf_def isBlank_text spaceAtHead_def whiteSpace_def Let_def orEmpty_def
      sample_defs store_defs)

section \<open>Editing an event: what the body cannot change\<close>

text \<open>
  C9. An edit that passes the admin and lookup checks stores the merged event under the event's key,
  and whatever the body holds, the stored \<open>signedUpStaff\<close>, \<open>confirmedStaff\<close>,
  \<open>hasBeenClosedBefore\<close> and \<open>createdAt\<close> are those of the event as it was; the id is
  the one of the request path. Every other field is the body's when the body has it
  and the old one otherwise.
\<close>

theorem updateEvent_preserves_membership:
  assumes "requireAdmin st caller = Inr admin" and "kvGetEvent st eid = Some ev"
  shows "\<exists>upd. fst (updateEvent env caller eid d st) = Inr upd \<and>
           kvGetEvent (fst (snd (updateEvent env caller eid d st))) eid = Some upd \<and>
           signedUpStaff upd = signedUpStaff ev \<and>
           confirmedStaff upd = confirmedStaff ev \<and>
           hasBeenClosedBefore upd = hasBeenClosedBefore ev \<and>
           createdAt upd = createdAt ev \<and>
           eventId upd = eid \<and>
           upd = (updatedEventOf eid ev d)
                   \<lparr> signedUpStaff := signedUpStaff ev, confirmedStaff := confirmedStaff ev,
                     hasBeenClosedBefore := hasBeenClosedBefore ev, createdAt := createdAt ev \<rparr> \<and>
           name upd = pick (d_name d) (name ev) \<and>
           location upd = pick (d_location d) (location ev) \<and>
           status upd = pickOpt (d_status d) (status ev) \<and>
           pointsAwarded upd = pickOpt (d_pointsAwarded d) (pointsAwarded ev) \<and>
           signUpTimestamps upd = pickOpt (d_signUpTimestamps d) (signUpTimestamps ev)"
  using assms
  by (intro exI [of _ "updatedEventOf eid ev d"])
     (simp add: updateEvent_def Let_def updatedEventOf_def)

theorem updateEvent_preserves_membership_witness:
  "requireAdmin (storeWith closedWorkshop) admin0 = Inr ''adm'' \<and>
   kvGetEvent (storeWith closedWorkshop) ''e1'' = Some closedWorkshop \<and>
   d_signedUpStaff moveData = Some [''X''] \<and> d_confirmedStaff moveData = Some [''X''] \<and>
   (\<exists>upd. fst (updateEvent env0 admin0 ''e1'' moveData (storeWith closedWorkshop)) = Inr upd \<and>
      kvGetEvent (fst (snd (updateEvent env0 admin0 ''e1'' moveData (storeWith closedWorkshop)))) ''e1'' =
        Some upd \<and>
      signedUpStaff upd = [''A'', ''B'', ''C''] \<and>
      confirmedStaff upd = Some [''A'', ''B''] \<and>
      hasBeenClosedBefore upd = Some True \<and>
      createdAt upd = ''2025-10-01'' \<and>
      location upd = ''Hall A'')"
proof -
  have a: "requireAdmin (storeWith closedWorkshop) admin0 = Inr ''adm''"
    by (simp add: sample_defs store_defs)
  have h: "kvGetEvent (storeWith closedWorkshop) ''e1'' = Some closedWorkshop"
    by (simp add: kvGetEvent_def storeWith_def)
  have d: "d_signedUpStaff moveData = Some [''X'']" "d_confirmedStaff moveData = Some [''X'']"
    "d_location moveData = Some ''Hall A''"
    by (simp_all add: moveData_def noData_def)
  have e: "signedUpStaff closedWorkshop = [''A'', ''B'', ''C'']"
    "confirmedStaff closedWorkshop = Some [''A'', ''B'']"
    "hasBeenClosedBefore closedWorkshop = Some True" "createdAt closedWorkshop = ''2025-10-01''"
    by (simp_all add: closedWorkshop_def workshop_def)
  from updateEvent_preserves_membership [OF a h, of env0 moveData] d e
  have "\<exists>upd. fst (updateEvent env0 admin0 ''e1'' moveData (storeWith closedWorkshop)) = Inr upd \<and>
      kvGetEvent (fst (snd (updateEvent env0 admin0 ''e1'' moveData (storeWith closedWorkshop)))) ''e1'' =
        Some upd \<and>
      signedUpStaff upd = [''A'', ''B'', ''C''] \<and>
      confirmedStaff upd = Some [''A'', ''B''] \<and>
      hasBeenClosedBefore upd = Some True \<and>
      createdAt upd = ''2025-10-01'' \<and>
      location upd = ''Hall A''"
    by (auto simp: pick_def)
  with a h d show ?thesis by blast
qed

section \<open>Cancelling a sign-up\<close>

text \<open>
  C10. For a stored event and an authenticated caller the request succeeds, whether
  or not the caller is signed up. The event stored afterwards is the old one with the
  caller's id filtered out of \<open>signedUpStaff\<close> and the caller's entry deleted from
  \<open>signUpTimestamps\<close>; nothing else in the store changes. Serving the same request
  again on the resulting store gives the same event and the same store.
\<close>

theorem cancelSignup_removes_caller:
  assumes "kvGetEvent st eid = Some ev"
  shows "\<exists>ev'. cancelSignup (Some uid) eid st = (Inr ev', kvSetEvent eid ev' st, [KvSetEvent eid ev']) \<and>
           ev' = ev\<lparr> signedUpStaff := filter (\<lambda>i. i \<noteq> uid) (signedUpStaff ev),
                      signUpTimestamps := Some (AList.delete uid (orEmpty (signUpTimestamps ev))) \<rparr> \<and>
           set (signedUpStaff ev') = set (signedUpStaff ev) - {uid} \<and>
           map_of (orEmpty (signUpTimestamps ev')) = (map_of (orEmpty (signUpTimestamps ev)))(uid := None) \<and>
           (uid \<notin> set (signedUpStaff ev) \<longrightarrow> signedUpStaff ev' = signedUpStaff ev) \<and>
           cancelSignup (Some uid) eid (kvSetEvent eid ev' st) =
             (Inr ev', kvSetEvent eid ev' st, [KvSetEvent eid ev'])"
proof -
  let ?ev' = "ev\<lparr> signedUpStaff := filter (\<lambda>i. i \<noteq> uid) (signedUpStaff ev),
                   signUpTimestamps := Some (AList.delete uid (orEmpty (signUpTimestamps ev))) \<rparr>"
  have one: "cancelSignup (Some uid) eid st = (Inr ?ev', kvSetEvent eid ?ev' st, [KvSetEvent eid ?ev'])"
    using assms by (simp add: cancelSignup_def Let_def)
  have again: "cancelSignup (Some uid) eid (kvSetEvent eid ?ev' st) =
             (Inr ?ev', kvSetEvent eid ?ev' st, [KvSetEvent eid ?ev'])"
    by (simp add: cancelSignup_def Let_def orEmpty_def delete_idem)
  have ids: "set (signedUpStaff ?ev') = set (signedUpStaff ev) - {uid}"
    by auto
  have ts: "map_of (orEmpty (signUpTimestamps ?ev')) = (map_of (orEmpty (signUpTimestamps ev)))(uid := None)"
    by (simp add: orEmpty_def delete_conv')
  have same: "uid \<notin> set (signedUpStaff ev) \<longrightarrow> signedUpStaff ?ev' = signedUpStaff ev"
    by (auto simp: filter_id_conv)
  show ?thesis
    using one again ids ts same by (intro exI [of _ ?ev']) simp
qed

theorem cancelSignup_removes_caller_witness:
  "kvGetEvent (storeWith workshop) ''e1'' = Some workshop \<and>
   ''Z'' \<notin> set (signedUpStaff workshop) \<and>
   (\<exists>ev'. cancelSignup (Some ''Z'') ''e1'' (storeWith workshop) =
             (Inr ev', kvSetEvent ''e1'' ev' (storeWith workshop), [KvSetEvent ''e1'' ev']) \<and>
      signedUpStaff ev' = [''A'', ''B'', ''C'']) \<and>
   (\<exists>ev'. cancelSignup (Some ''B'') ''e1'' (storeWith workshop) =
             (Inr ev', kvSetEvent ''e1'' ev' (storeWith workshop), [KvSetEvent ''e1'' ev']) \<and>
      signedUpStaff ev' = [''A'', ''C''] \<and>
      cancelSignup (Some ''B'') ''e1'' (kvSetEvent ''e1'' ev' (storeWith workshop)) =
        (Inr ev', kvSetEvent ''e1'' ev' (storeWith workshop), [KvSetEvent ''e1'' ev']))"
proof -
  have h: "kvGetEvent (storeWith workshop) ''e1'' = Some workshop"
    by (simp add: kvGetEvent_def storeWith_def)
  have z: "''Z'' \<notin> set (signedUpStaff workshop)"
    by (simp add: workshop_def)
  have s: "signedUpStaff workshop = [''A'', ''B'', ''C'']"
    by (simp add: workshop_def)
  from cancelSignup_removes_caller [OF h, of "''Z''"] z s
  have a: "\<exists>ev'. cancelSignup (Some ''Z'') ''e1'' (storeWith workshop) =
             (Inr ev', kvSetEvent ''e1'' ev' (storeWith workshop), [KvSetEvent ''e1'' ev']) \<and>
      signedUpStaff ev' = [''A'', ''B'', ''C'']"
    by auto
  from cancelSignup_removes_caller [OF h, of "''B''"] s
  have b: "\<exists>ev'. cancelSignup (Some ''B'') ''e1'' (storeWith workshop) =
             (Inr ev', kvSetEvent ''e1'' ev' (storeWith workshop), [KvSetEvent ''e1'' ev']) \<and>
      signedUpStaff ev' = [''A'', ''C''] \<and>
      cancelSignup (Some ''B'') ''e1'' (kvSetEvent ''e1'' ev' (storeWith workshop)) =
        (Inr ev', kvSetEvent ''e1'' ev' (storeWith workshop), [KvSetEvent ''e1'' ev'])"
    by auto
  from h z a b show ?thesis by blast
qed


end
